theory Spec2Isabelle
  imports Main
begin

section \<open>Data model (structs.go)\<close>

text \<open>
  Go's \<open>int\<close> is modelled as \<open>int\<close>: the streaming code only compares identifiers,
  it never adds or multiplies them, so no wrap-around can occur; the one computation on a
  count, the number of pages of a resync, is modelled with its rounding. Fields whose name
  occurs in more than one struct carry the first letter of their struct as a prefix.
\<close>

record Torrent =
  ID :: int
  Hash :: string
  Filename :: string
  EpisodeURL :: string
  TorrentURL :: string
  MagnetURL :: string
  Title :: string
  T_ImdbID :: string
  Season :: string
  Episode :: string
  SmallScreenshotURL :: string
  LargeScreenshotURL :: string
  Seeds :: int
  Peers :: int
  DateReleasedUnix :: int
  SizeBytes :: string

record Page =
  P_ImdbID :: string
  TorrentsCount :: int
  P_Limit :: int
  P_Page :: int
  Torrents :: "Torrent list"

text \<open>
  Go's \<open>error\<close> values: the package's own \<open>ErrMissingImdbID\<close>, and whatever the HTTP
  transport or the JSON decoder returns, kept as an opaque message.
\<close>

datatype error = ErrMissingImdbID | TransportError string

text \<open>\<open>StreamTorrent\<close> embeds a \<open>Torrent\<close> and adds \<open>Err\<close>; \<open>nil\<close> is \<open>None\<close>.\<close>

record StreamTorrent =
  Torrent :: Torrent
  Err :: "error option"

text \<open>The zero value of \<open>Torrent\<close>, which Go fills in for \<open>StreamTorrent{Err: err}\<close>.\<close>

definition zeroTorrent :: Torrent where
  "zeroTorrent = \<lparr>ID = 0, Hash = [], Filename = [], EpisodeURL = [], TorrentURL = [],
     MagnetURL = [], Title = [], T_ImdbID = [], Season = [], Episode = [],
     SmallScreenshotURL = [], LargeScreenshotURL = [], Seeds = 0, Peers = 0,
     DateReleasedUnix = 0, SizeBytes = []\<rparr>"

section \<open>Constants and options\<close>

definition EZTVBaseURL :: string where
  "EZTVBaseURL = ''https://eztv.re/api''"

text \<open>\<open>time.Duration\<close> counts nanoseconds.\<close>

type_synonym Duration = int

definition Minute :: Duration where
  "Minute = 60 * 1000000000"

definition StreamRecheckInterval :: Duration where
  "StreamRecheckInterval = 5 * Minute"

definition MaxEZTVAPILimit :: int where
  "MaxEZTVAPILimit = 100"

record URLOptions =
  Page :: int
  Limit :: int
  ImdbID :: string

record StreamOptions =
  S_ImdbID :: string
  LastTorrentID :: int
  RecheckInterval :: Duration

section \<open>The client and its environment\<close>

text \<open>
  A request as \<open>GetTorrents\<close> hands it to the HTTP client: the URL and the query values in
  the order of the \<open>q.Add\<close> calls.
\<close>

record request =
  url :: string
  query :: "(string \<times> string) list"

text \<open>
  The HTTP client is the environment of the program. \<open>http_client\<close> gives, for the
  \<open>n\<close>-th request of a run, the outcome of \<open>c.client.Do(req)\<close> followed by the JSON
  decoding of the body: an error or a page. The index lets the answers change over time.
\<close>

type_synonym http_client = "nat \<Rightarrow> request \<Rightarrow> error + Page"

record Client =
  client :: http_client
  baseURL :: string

type_synonym Option = "Client \<Rightarrow> Client"

definition WithHTTPClient :: "http_client \<Rightarrow> Option" where
  "WithHTTPClient cl = (\<lambda>c. c\<lparr>client := cl\<rparr>)"

definition WithBaseURL :: "string \<Rightarrow> Option" where
  "WithBaseURL u = (\<lambda>c. c\<lparr>baseURL := u\<rparr>)"

text \<open>\<open>New\<close>; \<open>http.DefaultClient\<close> is a parameter.\<close>

definition New :: "http_client \<Rightarrow> Option list \<Rightarrow> Client" where
  "New DefaultClient ops = foldl (\<lambda>c op. op c) \<lparr>client = DefaultClient, baseURL = EZTVBaseURL\<rparr> ops"

section \<open>Strings\<close>

definition TrimPrefix :: "string \<Rightarrow> string \<Rightarrow> string" where
  "TrimPrefix s p = (if take (length p) s = p then drop (length p) s else s)"

fun natToString :: "nat \<Rightarrow> string" where
  "natToString n =
     (if n < 10 then [''0123456789'' ! n]
      else natToString (n div 10) @ [''0123456789'' ! (n mod 10)])"

declare natToString.simps [simp del]

definition Itoa :: "int \<Rightarrow> string" where
  "Itoa i = (if i < 0 then CHR ''-'' # natToString (nat (- i)) else natToString (nat i))"

section \<open>The goroutine's effects\<close>

text \<open>
  What a run has done so far: the events the consumer has received from \<open>torrentsCh\<close>, the
  requests handed to the HTTP client, and the durations passed to \<open>time.After\<close>, each
  oldest first.
\<close>

record gstate =
  sent :: "StreamTorrent list"
  requests :: "request list"
  timers :: "Duration list"

definition start :: gstate where
  "start = \<lparr>sent = [], requests = [], timers = []\<rparr>"

text \<open>
  \<open>torrentsCh\<close> is unbuffered: \<open>torrentsCh <- ev\<close> returns once the consumer has received
  \<open>ev\<close>. The consumer is given by the number of receives it performs; a send beyond that
  number never returns (\<open>None\<close>). No send of the source is inside a \<open>select\<close>.
\<close>

definition send :: "nat \<Rightarrow> StreamTorrent \<Rightarrow> gstate \<Rightarrow> gstate option" where
  "send consumer ev s =
     (if length (sent s) < consumer then Some (s\<lparr>sent := sent s @ [ev]\<rparr>) else None)"

definition errEvent :: "error \<Rightarrow> StreamTorrent" where
  "errEvent e = \<lparr>Torrent = zeroTorrent, Err = Some e\<rparr>"

definition itemEvent :: "Torrent \<Rightarrow> StreamTorrent" where
  "itemEvent t = \<lparr>Torrent = t, Err = None\<rparr>"

section \<open>GetTorrents\<close>

text \<open>
  \<open>buildRequest\<close> is lines 161 to 180: the URL is formatted from the constant
  \<open>EZTVBaseURL\<close>, and a query value is added for each option that is not the zero value.
  \<open>http.NewRequestWithContext\<close> fails only for a bad method, a URL that does not parse or
  a nil context, none of which occurs here, so that branch is left out. \<open>q.Encode()\<close>
  serialises the values (sorted by key); the model keeps them as pairs. \<open>GetTorrents\<close>
  then hands the request to the HTTP client and records it.
\<close>

definition buildRequest :: "URLOptions \<Rightarrow> request" where
  "buildRequest urlOptions =
     \<lparr>url = EZTVBaseURL @ ''/get-torrents'',
      query =
        (if Page urlOptions \<noteq> 0 then [(''page'', Itoa (Page urlOptions))] else []) @
        (if Limit urlOptions \<noteq> 0 then [(''limit'', Itoa (Limit urlOptions))] else []) @
        (if ImdbID urlOptions \<noteq> [] then [(''imdb_id'', TrimPrefix (ImdbID urlOptions) ''tt'')]
         else [])\<rparr>"

definition GetTorrents :: "Client \<Rightarrow> URLOptions \<Rightarrow> gstate \<Rightarrow> (error + Page) \<times> gstate" where
  "GetTorrents c urlOptions s =
     (let req = buildRequest urlOptions
      in (client c (length (requests s)) req, s\<lparr>requests := requests s @ [req]\<rparr>))"

section \<open>fullStreamResync\<close>

text \<open>
  A call either returns the cursor, or the goroutine stays in one of its sends for ever;
  \<open>Block\<close> then carries the value \<open>lastTorrentID\<close> had at that send.
\<close>

datatype resync = Return int gstate | Block int gstate

text \<open>The inner loop, lines 287 to 293.\<close>

fun emitAll :: "nat \<Rightarrow> Torrent list \<Rightarrow> int \<Rightarrow> gstate \<Rightarrow> resync" where
  "emitAll consumer [] lastTorrentID s = Return lastTorrentID s"
| "emitAll consumer (torrent # rest) lastTorrentID s =
     (case send consumer (itemEvent torrent) s of
        None \<Rightarrow> Block lastTorrentID s
      | Some s' \<Rightarrow> emitAll consumer rest (ID torrent) s')"

text \<open>The outer loop, lines 275 to 294; the first argument is \<open>i\<close>.\<close>

fun resyncPages :: "Client \<Rightarrow> nat \<Rightarrow> string \<Rightarrow> nat \<Rightarrow> int \<Rightarrow> gstate \<Rightarrow> resync" where
  "resyncPages c consumer imdbID 0 lastTorrentID s = Return lastTorrentID s"
| "resyncPages c consumer imdbID (Suc n) lastTorrentID s =
     (case GetTorrents c \<lparr>Page = int (Suc n), Limit = MaxEZTVAPILimit, ImdbID = imdbID\<rparr> s of
        (Inl err, s1) \<Rightarrow>
          (case send consumer (errEvent err) s1 of
             None \<Rightarrow> Block lastTorrentID s1
           | Some s2 \<Rightarrow> Return lastTorrentID s2)
      | (Inr page, s1) \<Rightarrow>
          (case emitAll consumer (rev (Torrents page)) lastTorrentID s1 of
             Block l s2 \<Rightarrow> Block l s2
           | Return l s2 \<Rightarrow> resyncPages c consumer imdbID n l s2))"

text \<open>
  Line 273, \<open>int(math.Ceil(float64(n) / MaxEZTVAPILimit))\<close>, is computed in IEEE 754
  double precision: 53 significant bits, rounding to nearest, ties to even. The exponent
  range of a double is never left by the values that occur here, so only the precision
  is modelled.

  \<open>bits n\<close> is the number of binary digits of \<open>n \<ge> 0\<close>, and \<open>roundHalfEven a b\<close> is the
  integer nearest to \<open>a / b\<close> for \<open>b > 0\<close>, the even one of two that are equally near.
\<close>

function bits :: "int \<Rightarrow> nat" where
  "bits n = (if n \<le> 0 then 0 else Suc (bits (n div 2)))"
  by pat_completeness auto
termination
  by (relation "measure nat") auto

declare bits.simps [simp del]

definition roundHalfEven :: "int \<Rightarrow> int \<Rightarrow> int" where
  "roundHalfEven a b =
     (let q = a div b; r = a mod b
      in if b < 2 * r \<or> (2 * r = b \<and> odd q) then q + 1 else q)"

text \<open>
  \<open>float64(n)\<close> for an integer \<open>n\<close>: exact up to 53 bits, otherwise \<open>n\<close> rounded to 53
  significant bits. The result is an integer and is given as such.
\<close>

definition toFloat64 :: "int \<Rightarrow> int" where
  "toFloat64 n =
     (let e = int (bits \<bar>n\<bar>) - 53
      in if e \<le> 0 then n else roundHalfEven n (2 ^ nat e) * 2 ^ nat e)"

text \<open>
  \<open>x / d\<close> for a double \<open>x\<close> with an integer value and a constant \<open>d > 0\<close>: the double
  nearest to the quotient, given as a pair \<open>(m, k)\<close> that stands for \<open>m * 2^k\<close>. With
  \<open>j = bits d\<close> the number \<open>|x| * 2^j div d\<close> is at least 1 and has the binary exponent
  of the quotient raised by \<open>j\<close>; \<open>k\<close> is the exponent of the last of the 53 bits.
\<close>

definition divFloat64 :: "int \<Rightarrow> int \<Rightarrow> int \<times> int" where
  "divFloat64 x d =
     (if x = 0 then (0, 0)
      else
        let j = bits d;
            k = int (bits (\<bar>x\<bar> * 2 ^ j div d)) - 1 - int j - 52
        in (if 0 \<le> k then roundHalfEven x (d * 2 ^ nat k)
            else roundHalfEven (x * 2 ^ nat (- k)) d, k))"

text \<open>
  \<open>int(math.Ceil(f))\<close> for the double \<open>m * 2^k\<close>: the least integer not below it. The
  conversion to \<open>int\<close> is exact, the value being an integer within range.
\<close>

definition Ceil :: "int \<times> int \<Rightarrow> int" where
  "Ceil f = (case f of (m, k) \<Rightarrow>
     if 0 \<le> k then m * 2 ^ nat k else - ((- m) div 2 ^ nat (- k)))"

text \<open>
  The number of pages. A result below one makes the loop \<open>for i := pages; i > 0; i--\<close>
  run no round.
\<close>

definition pageCount :: "int \<Rightarrow> int" where
  "pageCount n = Ceil (divFloat64 (toFloat64 n) MaxEZTVAPILimit)"

definition fullStreamResync :: "Client \<Rightarrow> nat \<Rightarrow> string \<Rightarrow> gstate \<Rightarrow> resync" where
  "fullStreamResync c consumer imdbID s =
     (case GetTorrents c \<lparr>Page = 1, Limit = 1, ImdbID = imdbID\<rparr> s of
        (Inl err, s1) \<Rightarrow>
          (case send consumer (errEvent err) s1 of
             None \<Rightarrow> Block 0 s1
           | Some s2 \<Rightarrow> Return 0 s2)
      | (Inr page, s1) \<Rightarrow>
          if TorrentsCount page = 0 then Return 0 s1
          else resyncPages c consumer imdbID (nat (pageCount (TorrentsCount page))) 0 s1)"

section \<open>TorrentStream\<close>

text \<open>
  The context is seen by the goroutine only at the \<open>select\<close> of the poll loop. A context
  is given by the outcome of each \<open>select\<close> the goroutine runs: \<open>CtxDone\<close> when
  \<open>ctx.Done()\<close> is taken, which needs the context to be cancelled by then, and
  \<open>TimerFired\<close> when the timer is. Where the list ends the goroutine is waiting in the
  \<open>select\<close>.
\<close>

datatype select_case = CtxDone | TimerFired

type_synonym Context = "select_case list"

text \<open>
  How a run stands: \<open>Closed\<close>, the goroutine has returned and the deferred
  \<open>close(torrentsCh)\<close> has run; \<open>BlockedSend\<close>, it is in a send the consumer never
  receives; \<open>ParkedSelect\<close>, it waits in the \<open>select\<close>.
\<close>

datatype status = Closed | BlockedSend | ParkedSelect

record outcome =
  status :: status
  cursor :: int
  world :: gstate

text \<open>The \<open>for\<close> loop of lines 225 to 251, one equation per outcome of the \<open>select\<close>.\<close>

fun pollLoop :: "Client \<Rightarrow> nat \<Rightarrow> string \<Rightarrow> Duration \<Rightarrow> int \<Rightarrow> Context \<Rightarrow> gstate \<Rightarrow> outcome" where
  "pollLoop c consumer imdbID recheckInterval lastTorrentID [] s =
     \<lparr>status = ParkedSelect, cursor = lastTorrentID,
      world = s\<lparr>timers := timers s @ [recheckInterval]\<rparr>\<rparr>"
| "pollLoop c consumer imdbID recheckInterval lastTorrentID (CtxDone # ctx) s =
     \<lparr>status = Closed, cursor = lastTorrentID,
      world = s\<lparr>timers := timers s @ [recheckInterval]\<rparr>\<rparr>"
| "pollLoop c consumer imdbID recheckInterval lastTorrentID (TimerFired # ctx) s =
     (case GetTorrents c \<lparr>Page = 1, Limit = 1, ImdbID = imdbID\<rparr>
             (s\<lparr>timers := timers s @ [recheckInterval]\<rparr>) of
        (Inl err, s1) \<Rightarrow>
          (case send consumer (errEvent err) s1 of
             None \<Rightarrow> \<lparr>status = BlockedSend, cursor = lastTorrentID, world = s1\<rparr>
           | Some s2 \<Rightarrow> pollLoop c consumer imdbID recheckInterval lastTorrentID ctx s2)
      | (Inr page, s1) \<Rightarrow>
          (case Torrents page of
             [] \<Rightarrow> pollLoop c consumer imdbID recheckInterval lastTorrentID ctx s1
           | newest # _ \<Rightarrow>
               if ID newest \<le> lastTorrentID
               then pollLoop c consumer imdbID recheckInterval lastTorrentID ctx s1
               else (case send consumer (itemEvent newest) s1 of
                       None \<Rightarrow> \<lparr>status = BlockedSend, cursor = ID newest, world = s1\<rparr>
                     | Some s2 \<Rightarrow> pollLoop c consumer imdbID recheckInterval (ID newest) ctx s2)))"

text \<open>
  \<open>TorrentStream\<close> makes the channel, starts the goroutine (line 207, before any check)
  and returns the channel. The model is the run of that goroutine against a context and a
  consumer.
\<close>

definition TorrentStream :: "Client \<Rightarrow> Context \<Rightarrow> nat \<Rightarrow> StreamOptions \<Rightarrow> outcome" where
  "TorrentStream c ctx consumer streamOptions =
     (let lastTorrentID = LastTorrentID streamOptions;
          imdbID = TrimPrefix (S_ImdbID streamOptions) ''tt''
      in if imdbID = [] then
           (case send consumer (errEvent ErrMissingImdbID) start of
              None \<Rightarrow> \<lparr>status = BlockedSend, cursor = lastTorrentID, world = start\<rparr>
            | Some s1 \<Rightarrow> \<lparr>status = Closed, cursor = lastTorrentID, world = s1\<rparr>)
         else
           let recheckInterval =
                 (if RecheckInterval streamOptions = 0 then StreamRecheckInterval
                  else RecheckInterval streamOptions)
           in if lastTorrentID = 0 then
                (case fullStreamResync c consumer imdbID start of
                   Block l s1 \<Rightarrow> \<lparr>status = BlockedSend, cursor = l, world = s1\<rparr>
                 | Return l s1 \<Rightarrow> pollLoop c consumer imdbID recheckInterval l ctx s1)
              else pollLoop c consumer imdbID recheckInterval lastTorrentID ctx start)"

section \<open>Observations on runs\<close>

text \<open>The cursor and the effects a call of \<open>fullStreamResync\<close> ends with.\<close>

fun resyncCursor :: "resync \<Rightarrow> int" where
  "resyncCursor (Return l s) = l"
| "resyncCursor (Block l s) = l"

fun resyncWorld :: "resync \<Rightarrow> gstate" where
  "resyncWorld (Return l s) = s"
| "resyncWorld (Block l s) = s"

text \<open>The identifiers of the successful events of a trace, in the order of emission.\<close>

definition itemIDs :: "StreamTorrent list \<Rightarrow> int list" where
  "itemIDs evs = map (\<lambda>ev. ID (Torrent ev)) (filter (\<lambda>ev. Err ev = None) evs)"

text \<open>
  The pages the HTTP client serves to a resync of \<open>k\<close> pages whose first page request is
  the \<open>m\<close>-th request of the run: its answers to the requests for the pages \<open>k\<close>,
  \<open>k - 1\<close>, and so on, in this order, up to the first one that fails.
\<close>

fun servedPages :: "Client \<Rightarrow> string \<Rightarrow> nat \<Rightarrow> nat \<Rightarrow> Page list" where
  "servedPages c imdbID m 0 = []"
| "servedPages c imdbID m (Suc k) =
     (case client c m (buildRequest \<lparr>Page = int (Suc k), Limit = MaxEZTVAPILimit, ImdbID = imdbID\<rparr>) of
        Inl err \<Rightarrow> []
      | Inr page \<Rightarrow> page # servedPages c imdbID (Suc m) k)"

section \<open>Environments used in the examples\<close>

definition torrentWithID :: "int \<Rightarrow> Torrent" where
  "torrentWithID n = zeroTorrent\<lparr>ID := n\<rparr>"

definition pageWith :: "int \<Rightarrow> Torrent list \<Rightarrow> Page" where
  "pageWith cnt ts =
     \<lparr>P_ImdbID = ''7908628'', TorrentsCount = cnt, P_Limit = 100, P_Page = 1, Torrents = ts\<rparr>"

text \<open>An HTTP client that answers the \<open>n\<close>-th request with the \<open>n\<close>-th entry of a list.\<close>

definition replay :: "(error + Page) list \<Rightarrow> http_client" where
  "replay answers n req =
     (if n < length answers then answers ! n else Inl (TransportError ''connection refused''))"

definition clientOf :: "http_client \<Rightarrow> Client" where
  "clientOf cl = New cl []"

definition exampleOptions :: StreamOptions where
  "exampleOptions = \<lparr>S_ImdbID = ''tt7908628'', LastTorrentID = 0, RecheckInterval = 0\<rparr>"

text \<open>
  An upstream whose list changes during a resync. The first answer reports 101 torrents,
  so two pages are fetched. Page 2 answers with the two oldest torrents (one torrent was
  added in between); by the time page 1 is fetched all but the three oldest are gone, and
  page 1 shows the torrents 1 and 2 again. Each page is newest first.
\<close>

definition shrinking :: http_client where
  "shrinking = replay
     [Inr (pageWith 101 [torrentWithID 101]),
      Inr (pageWith 102 [torrentWithID 2, torrentWithID 1]),
      Inr (pageWith 3 [torrentWithID 3, torrentWithID 2, torrentWithID 1])]"

text \<open>
  An upstream with two torrents at the time of the resync (one page) and a third one when
  the poll loop asks for the newest.
\<close>

definition growing :: http_client where
  "growing = replay
     [Inr (pageWith 2 [torrentWithID 2]),
      Inr (pageWith 2 [torrentWithID 2, torrentWithID 1]),
      Inr (pageWith 3 [torrentWithID 3])]"

text \<open>An upstream whose newest torrent is 50 at the first request and 51 at the second.\<close>

definition newer :: http_client where
  "newer = replay
     [Inr (pageWith 50 [torrentWithID 50]),
      Inr (pageWith 51 [torrentWithID 51])]"

text \<open>
  An upstream that keeps a fixed list \<open>items\<close>, newest first: page \<open>p\<close> of size \<open>l\<close> is
  the \<open>p\<close>-th block of \<open>l\<close> entries, and every answer reports the length of the list.
\<close>

definition serverPage :: "Torrent list \<Rightarrow> nat \<Rightarrow> nat \<Rightarrow> Page" where
  "serverPage items p l =
     \<lparr>P_ImdbID = ''7908628'', TorrentsCount = int (length items), P_Limit = int l,
      P_Page = int p, Torrents = take l (drop ((p - 1) * l) items)\<rparr>"

text \<open>
  The HTTP client in front of that upstream, for the requests a resync over three pages
  makes for the show \<open>i\<close>; it gives the same answers at any time.
\<close>

definition upstream :: "Torrent list \<Rightarrow> string \<Rightarrow> http_client" where
  "upstream items i m req =
     (if req = buildRequest \<lparr>Page = 1, Limit = 1, ImdbID = i\<rparr> then Inr (serverPage items 1 1)
      else if req = buildRequest \<lparr>Page = 1, Limit = 100, ImdbID = i\<rparr> then Inr (serverPage items 1 100)
      else if req = buildRequest \<lparr>Page = 2, Limit = 100, ImdbID = i\<rparr> then Inr (serverPage items 2 100)
      else if req = buildRequest \<lparr>Page = 3, Limit = 100, ImdbID = i\<rparr> then Inr (serverPage items 3 100)
      else Inl (TransportError ''bad request''))"

text \<open>A list of \<open>n\<close> torrents with the identifiers \<open>n\<close> down to \<open>1\<close>, newest first.\<close>

definition catalogue :: "nat \<Rightarrow> Torrent list" where
  "catalogue n = map (\<lambda>k. torrentWithID (int k)) (rev [1..<Suc n])"

section \<open>Basic facts\<close>

lemma itemIDs_simps [simp]:
  "itemIDs [] = []"
  "itemIDs (xs @ ys) = itemIDs xs @ itemIDs ys"
  "itemIDs (errEvent e # xs) = itemIDs xs"
  "itemIDs (itemEvent t # xs) = ID t # itemIDs xs"
  by (simp_all add: itemIDs_def errEvent_def itemEvent_def)

lemma clientOf_simps [simp]: "client (clientOf cl) = cl"
  by (simp add: clientOf_def New_def)

lemma GetTorrents_eq:
  "GetTorrents c urlOptions s =
     (client c (length (requests s)) (buildRequest urlOptions),
      s\<lparr>requests := requests s @ [buildRequest urlOptions]\<rparr>)"
  by (simp add: GetTorrents_def Let_def)

text \<open>One round of the poll loop whose timer fired, with the effects written out.\<close>

lemma pollLoop_tick:
  "pollLoop c n i iv l (TimerFired # ctx) s =
     (let req = buildRequest \<lparr>Page = 1, Limit = 1, ImdbID = i\<rparr>;
          s1 = s\<lparr>timers := timers s @ [iv], requests := requests s @ [req]\<rparr>
      in case client c (length (requests s)) req of
           Inl err \<Rightarrow>
             if length (sent s) < n
             then pollLoop c n i iv l ctx (s1\<lparr>sent := sent s @ [errEvent err]\<rparr>)
             else \<lparr>status = BlockedSend, cursor = l, world = s1\<rparr>
         | Inr page \<Rightarrow>
             (case Torrents page of
                [] \<Rightarrow> pollLoop c n i iv l ctx s1
              | newest # older \<Rightarrow>
                  if ID newest \<le> l then pollLoop c n i iv l ctx s1
                  else if length (sent s) < n
                  then pollLoop c n i iv (ID newest) ctx (s1\<lparr>sent := sent s @ [itemEvent newest]\<rparr>)
                  else \<lparr>status = BlockedSend, cursor = ID newest, world = s1\<rparr>))"
  by (simp add: GetTorrents_eq send_def Let_def split: sum.splits list.splits)

declare pollLoop.simps(3) [simp del]

section \<open>The number of pages\<close>

text \<open>
  Up to 53 bits the double arithmetic of line 273 gives the ceiling of \<open>n / 100\<close>; the
  first count for which it does not is \<open>2^53 + 9\<close>.
\<close>

lemma bits_le: "n < 2 ^ j \<Longrightarrow> bits n \<le> j"
proof (induction j arbitrary: n)
  case 0
  then show ?case by (simp add: bits.simps)
next
  case (Suc j)
  show ?case
  proof (cases "n \<le> 0")
    case True
    then show ?thesis by (simp add: bits.simps)
  next
    case False
    from Suc.prems have "n div 2 < 2 ^ j" by simp
    then have "bits (n div 2) \<le> j" by (rule Suc.IH)
    with False show ?thesis by (subst bits.simps) simp
  qed
qed

lemma bits_100: "bits 100 = 7"
  by code_simp

lemma ceil_shift:
  fixes a r p :: int
  assumes "0 < p" "0 \<le> r" "r \<le> p"
  shows "- ((- (a * p + r)) div p) = a + (if r = 0 then 0 else 1)"
proof -
  have "(- (a * p + r)) div p = (p * (- a) + (- r)) div p"
    by (simp add: algebra_simps)
  also have "\<dots> = - a + (- r) div p"
    using assms(1) by (subst div_mult_self4) simp_all
  finally have split: "(- (a * p + r)) div p = - a + (- r) div p" .
  have "(- r) div p = (if r = 0 then 0 else - 1)"
  proof (cases "r = p")
    case True
    with assms(1) show ?thesis by (simp add: zdiv_zminus1_eq_if)
  next
    case False
    with assms have "r < p" by simp
    with assms show ?thesis
      by (simp add: zdiv_zminus1_eq_if)
  qed
  with split show ?thesis by simp
qed

lemma round_scaled:
  fixes n p :: int
  assumes "64 \<le> p"
  shows "\<exists>r. roundHalfEven (n * p) 100 = (n div 100) * p + r \<and> 0 \<le> r \<and> r \<le> p \<and>
             (r = 0 \<longleftrightarrow> n mod 100 = 0)"
proof -
  define a where "a = n div 100"
  define b where "b = n mod 100"
  have b: "0 \<le> b" "b < 100" by (simp_all add: b_def)
  have n: "n = 100 * a + b" by (simp add: a_def b_def)
  define q where "q = (b * p) div 100"
  define m where "m = (b * p) mod 100"
  have np: "n * p = 100 * (a * p) + b * p"
    unfolding n by (simp add: algebra_simps)
  have d: "(n * p) div 100 = a * p + q"
    unfolding np q_def by (subst div_mult_self4) simp_all
  have mm: "(n * p) mod 100 = m"
    unfolding np m_def by (subst mod_mult_self4) simp_all
  have bp: "b * p = 100 * q + m" by (simp add: q_def m_def)
  have m: "0 \<le> m" "m < 100" by (simp_all add: m_def)
  from b assms have "b * p \<le> 99 * p" by simp
  with bp m assms have q: "q < p" by linarith
  from b assms have "0 \<le> b * p" by simp
  then have q0: "0 \<le> q" unfolding q_def by (simp add: pos_imp_zdiv_nonneg_iff)
  define up where "up \<longleftrightarrow> 100 < 2 * m \<or> (2 * m = 100 \<and> odd (a * p + q))"
  have r: "roundHalfEven (n * p) 100 = a * p + (if up then q + 1 else q)"
    by (simp add: roundHalfEven_def Let_def d mm up_def)
  have zero: "(if up then q + 1 else q) = 0 \<longleftrightarrow> b = 0"
  proof (cases "b = 0")
    case True
    then have "q = 0" "m = 0" by (simp_all add: q_def m_def)
    with True show ?thesis by (simp add: up_def)
  next
    case False
    with b have "1 \<le> b" by simp
    with assms have "1 * 64 \<le> b * p"
      by (intro mult_mono) simp_all
    then have big: "64 \<le> b * p" by simp
    show ?thesis
    proof (cases "q = 0")
      case True
      with bp big have "64 \<le> m" by simp
      then have up by (simp add: up_def)
      with False q0 show ?thesis by simp
    next
      case nz: False
      with q0 have "0 < q" by simp
      with False show ?thesis by simp
    qed
  qed
  from q q0 have range: "0 \<le> (if up then q + 1 else q)" "(if up then q + 1 else q) \<le> p"
    by simp_all
  show ?thesis
  proof (intro exI conjI)
    show "roundHalfEven (n * p) 100 = n div 100 * p + (if up then q + 1 else q)"
      using r by (simp only: a_def)
    show "0 \<le> (if up then q + 1 else q)"
      by (rule range(1))
    show "(if up then q + 1 else q) \<le> p"
      by (rule range(2))
    show "((if up then q + 1 else q) = 0) = (n mod 100 = 0)"
      using zero by (simp only: b_def)
  qed
qed

lemma pageCount_exact:
  assumes "\<bar>n\<bar> < 2 ^ 53"
  shows "pageCount n = - ((- n) div 100)"
proof (cases "n = 0")
  case True
  have "pageCount 0 = 0" by code_simp
  with True show ?thesis by simp
next
  case False
  from assms have "bits \<bar>n\<bar> \<le> 53" by (rule bits_le)
  then have conv: "toFloat64 n = n"
    by (simp add: toFloat64_def Let_def)
  have "\<bar>n\<bar> * 2 ^ 7 div 100 \<le> \<bar>n\<bar> * 2 ^ 7 div 64"
    by (rule zdiv_mono2) simp_all
  also have "\<dots> = \<bar>n\<bar> * 2" by simp
  also from assms have "\<dots> < 2 ^ 54" by simp
  finally have "bits (\<bar>n\<bar> * 2 ^ 7 div 100) \<le> 54"
    by (rule bits_le)
  then have k: "int (bits (\<bar>n\<bar> * 2 ^ 7 div 100)) - 1 - 7 - 52 \<le> - 6"
    by simp
  define K where "K = nat (- (int (bits (\<bar>n\<bar> * 2 ^ 7 div 100)) - 1 - 7 - 52))"
  from k have K: "6 \<le> K" by (simp add: K_def)
  then have "(2::int) ^ 6 \<le> 2 ^ K"
    by (intro power_increasing) simp_all
  then have p: "(64::int) \<le> 2 ^ K" by simp
  from round_scaled [OF p, of n] obtain r
    where all: "roundHalfEven (n * 2 ^ K) 100 = (n div 100) * 2 ^ K + r \<and> 0 \<le> r \<and> r \<le> 2 ^ K \<and>
             (r = 0 \<longleftrightarrow> n mod 100 = 0)" ..
  then have round: "roundHalfEven (n * 2 ^ K) 100 = (n div 100) * 2 ^ K + r"
    and r: "0 \<le> r" "r \<le> 2 ^ K" "r = 0 \<longleftrightarrow> n mod 100 = 0"
    by simp_all
  from p have pos: "(0::int) < 2 ^ K" by simp
  have j: "bits MaxEZTVAPILimit = 7"
    by (simp add: MaxEZTVAPILimit_def bits_100)
  have "divFloat64 n MaxEZTVAPILimit = (roundHalfEven (n * 2 ^ K) 100, - int K)"
    using False k unfolding divFloat64_def j Let_def K_def
    by (simp add: MaxEZTVAPILimit_def)
  then have "pageCount n = - ((- roundHalfEven (n * 2 ^ K) 100) div 2 ^ K)"
    using K by (simp add: pageCount_def conv Ceil_def)
  also have "\<dots> = n div 100 + (if r = 0 then 0 else 1)"
    unfolding round using pos r(1,2) by (rule ceil_shift)
  also have "\<dots> = - ((- n) div 100)"
    using r(3) by (simp add: zdiv_zminus1_eq_if)
  finally show ?thesis .
qed

lemma pageCount_beyond_53_bits:
  "pageCount 9007199254741001 = 90071992547410 \<and> - ((- 9007199254741001) div 100) = (90071992547411 :: int)"
  by code_simp

lemma pageCount_examples:
  "pageCount 1 = 1" "pageCount 100 = 1" "pageCount 101 = 2" "pageCount 150 = 2" "pageCount 200 = 2"
  "pageCount 250 = 3" "pageCount (- 5) = 0"
  using pageCount_exact [of 1] pageCount_exact [of 100] pageCount_exact [of 101]
    pageCount_exact [of 150] pageCount_exact [of 200] pageCount_exact [of 250]
    pageCount_exact [of "- 5"]
  by simp_all

section \<open>The request URL\<close>

text \<open>
  C10. \<open>GetTorrents\<close> takes the URL from the constant \<open>EZTVBaseURL\<close> and never reads the
  client's \<open>baseURL\<close>: for every client the request goes to
  \<open>https://eztv.re/api/get-torrents\<close>, and a client built with \<open>WithBaseURL u\<close> behaves in
  \<open>GetTorrents\<close> exactly as the client built without it.
\<close>

theorem GetTorrents_ignores_baseURL:
  "url (last (requests (snd (GetTorrents c urlOptions s)))) = ''https://eztv.re/api/get-torrents'' \<and>
   GetTorrents (WithBaseURL u c) urlOptions s = GetTorrents c urlOptions s \<and>
   GetTorrents (New d (ops @ [WithBaseURL u])) urlOptions s = GetTorrents (New d ops) urlOptions s"
  by (simp add: GetTorrents_eq buildRequest_def EZTVBaseURL_def WithBaseURL_def New_def)

section \<open>Cancellation\<close>

lemma pollLoop_done_after:
  "pollLoop c n i iv l (pre @ CtxDone # post) s =
     (let r = pollLoop c n i iv l pre s
      in if status r = ParkedSelect then r\<lparr>status := Closed\<rparr> else r)"
proof (induction pre arbitrary: l s)
  case Nil
  show ?case by simp
next
  case (Cons a pre)
  show ?case
  proof (cases a)
    case CtxDone
    then show ?thesis by simp
  next
    case TimerFired
    then show ?thesis
      by (simp add: pollLoop_tick Cons.IH Let_def split: sum.splits list.splits)
  qed
qed

lemma pollLoop_blocked_stays:
  "status (pollLoop c n i iv l pre s) \<noteq> ParkedSelect \<Longrightarrow>
   pollLoop c n i iv l (pre @ post) s = pollLoop c n i iv l pre s"
proof (induction pre arbitrary: l s)
  case Nil
  then show ?case by simp
next
  case (Cons a pre)
  show ?case
  proof (cases a)
    case CtxDone
    then show ?thesis by simp
  next
    case TimerFired
    with Cons.prems show ?thesis
      by (auto simp add: pollLoop_tick Cons.IH Let_def split: sum.splits list.splits if_splits)
  qed
qed

text \<open>
  C4, as the code has it. Cancellation is looked at in one place, the \<open>select\<close> that waits
  for the poll timer. When that \<open>select\<close> takes \<open>ctx.Done()\<close>, the run ends as it stood
  while waiting: the same events, the same requests, the channel closed, and nothing of
  what the context does later matters. A goroutine that is inside a send is not reached
  by the context: whatever the context does afterwards, the run stays as it is.
\<close>

theorem cancellation_is_observed_at_the_select:
  "TorrentStream c (pre @ CtxDone # post) consumer streamOptions =
     (let r = TorrentStream c pre consumer streamOptions
      in if status r = ParkedSelect then r\<lparr>status := Closed\<rparr> else r) \<and>
   (status (TorrentStream c pre consumer streamOptions) = BlockedSend \<longrightarrow>
      TorrentStream c (pre @ post) consumer streamOptions =
      TorrentStream c pre consumer streamOptions)"
  by (simp add: TorrentStream_def Let_def pollLoop_done_after pollLoop_blocked_stays
      split: option.splits resync.splits)

theorem cancellation_is_observed_at_the_select_witness:
  "status (TorrentStream (clientOf (replay [])) [TimerFired] 5 exampleOptions) = ParkedSelect \<and>
   TorrentStream (clientOf (replay [])) ([TimerFired] @ CtxDone # [TimerFired]) 5 exampleOptions =
     (TorrentStream (clientOf (replay [])) [TimerFired] 5 exampleOptions)\<lparr>status := Closed\<rparr> \<and>
   status (TorrentStream (clientOf (replay [])) [TimerFired] 1 exampleOptions) = BlockedSend \<and>
   TorrentStream (clientOf (replay [])) ([TimerFired] @ [CtxDone]) 1 exampleOptions =
     TorrentStream (clientOf (replay [])) [TimerFired] 1 exampleOptions"
proof -
  have parked: "status (TorrentStream (clientOf (replay [])) [TimerFired] 5 exampleOptions) = ParkedSelect"
    by code_simp
  have blocked: "status (TorrentStream (clientOf (replay [])) [TimerFired] 1 exampleOptions) = BlockedSend"
    by code_simp
  from cancellation_is_observed_at_the_select
         [of "clientOf (replay [])" "[TimerFired]" "[TimerFired]" 5 exampleOptions] parked
  have one: "TorrentStream (clientOf (replay [])) ([TimerFired] @ CtxDone # [TimerFired]) 5 exampleOptions =
     (TorrentStream (clientOf (replay [])) [TimerFired] 5 exampleOptions)\<lparr>status := Closed\<rparr>"
    by (simp add: Let_def)
  from cancellation_is_observed_at_the_select
         [of "clientOf (replay [])" "[TimerFired]" "[CtxDone]" 1 exampleOptions] blocked
  have two: "TorrentStream (clientOf (replay [])) ([TimerFired] @ [CtxDone]) 1 exampleOptions =
     TorrentStream (clientOf (replay [])) [TimerFired] 1 exampleOptions"
    by blast
  from parked one blocked two show ?thesis by blast
qed

text \<open>
  C4, as the claim states it, fails at the sends. The context is cancelled (the first
  \<open>select\<close> would take \<open>ctx.Done()\<close>), the first fetch fails, and the consumer does not
  receive: the goroutine stays in the send of line 266, never reaches the \<open>select\<close>, and
  the channel is not closed.
\<close>

theorem sends_do_not_check_cancellation:
  "status (TorrentStream (clientOf (replay [])) [CtxDone] 0 exampleOptions) = BlockedSend \<and>
   status (TorrentStream (clientOf (replay [])) [CtxDone] 0 exampleOptions) \<noteq> Closed \<and>
   timers (world (TorrentStream (clientOf (replay [])) [CtxDone] 0 exampleOptions)) = []"
  by code_simp

section \<open>The missing ImdbID\<close>

text \<open>
  C5, as the code has it. With an empty \<open>ImdbID\<close> the goroutine, which is started before
  the check, makes no request and sets no timer. It offers one event, the error
  \<open>ErrMissingImdbID\<close> (an event with \<open>Err\<close> set and the zero torrent); when the
  consumer receives it the channel is closed with that single event, and while the consumer does not receive the goroutine stays in the send.
\<close>

theorem missing_ImdbID_gives_one_error:
  assumes "S_ImdbID streamOptions = []"
  shows "TorrentStream c ctx consumer streamOptions =
     (if 0 < consumer
      then \<lparr>status = Closed, cursor = LastTorrentID streamOptions,
            world = \<lparr>sent = [\<lparr>Torrent = zeroTorrent, Err = Some ErrMissingImdbID\<rparr>],
                     requests = [], timers = []\<rparr>\<rparr>
      else \<lparr>status = BlockedSend, cursor = LastTorrentID streamOptions,
            world = \<lparr>sent = [], requests = [], timers = []\<rparr>\<rparr>)"
  using assms by (simp add: TorrentStream_def TrimPrefix_def send_def start_def errEvent_def)

theorem missing_ImdbID_gives_one_error_witness:
  "S_ImdbID (exampleOptions\<lparr>S_ImdbID := []\<rparr>) = [] \<and>
   TorrentStream (clientOf shrinking) [TimerFired] 1 (exampleOptions\<lparr>S_ImdbID := []\<rparr>) =
     \<lparr>status = Closed, cursor = 0,
      world = \<lparr>sent = [\<lparr>Torrent = zeroTorrent, Err = Some ErrMissingImdbID\<rparr>],
               requests = [], timers = []\<rparr>\<rparr>"
proof -
  have h: "S_ImdbID (exampleOptions\<lparr>S_ImdbID := []\<rparr>) = []" by simp
  from missing_ImdbID_gives_one_error [OF h, of "clientOf shrinking" "[TimerFired]" 1] h
  show ?thesis by (simp add: exampleOptions_def)
qed

text \<open>
  C5, as the claim states it, fails when the consumer does not receive: the stream has
  emitted no event and is not closed, because the goroutine started at line 207 is
  waiting in the send of line 213.
\<close>

theorem missing_ImdbID_goroutine_is_started:
  "status (TorrentStream (clientOf shrinking) [] 0 (exampleOptions\<lparr>S_ImdbID := []\<rparr>)) = BlockedSend \<and>
   sent (world (TorrentStream (clientOf shrinking) [] 0 (exampleOptions\<lparr>S_ImdbID := []\<rparr>))) = []"
  by code_simp

section \<open>A failed fetch in the poll loop\<close>

text \<open>
  C7. A round of the poll loop whose fetch fails hands one event to the consumer, an error
  event (\<open>Err\<close> is the error of the fetch, the torrent is the zero value), and goes on
  with the next round under the same cursor; nothing else is sent and one request was
  made. With no further round the goroutine waits in the \<open>select\<close>, so the stream is
  open, and a following round whose fetch brings a newer torrent emits that torrent as a
  successful event.
\<close>

theorem poll_fetch_failure_is_not_fatal:
  assumes "client c (length (requests s)) (buildRequest \<lparr>Page = 1, Limit = 1, ImdbID = imdbID\<rparr>) = Inl err"
      and "length (sent s) < consumer"
  shows "pollLoop c consumer imdbID iv l (TimerFired # ctx) s =
         pollLoop c consumer imdbID iv l ctx
           (s\<lparr>timers := timers s @ [iv],
              requests := requests s @ [buildRequest \<lparr>Page = 1, Limit = 1, ImdbID = imdbID\<rparr>],
              sent := sent s @ [\<lparr>Torrent = zeroTorrent, Err = Some err\<rparr>]\<rparr>) \<and>
         status (pollLoop c consumer imdbID iv l [TimerFired] s) = ParkedSelect \<and>
         cursor (pollLoop c consumer imdbID iv l [TimerFired] s) = l \<and>
         sent (world (pollLoop c consumer imdbID iv l [TimerFired] s)) =
           sent s @ [\<lparr>Torrent = zeroTorrent, Err = Some err\<rparr>] \<and>
         length (filter (\<lambda>ev. Err ev \<noteq> None)
           (drop (length (sent s)) (sent (world (pollLoop c consumer imdbID iv l [TimerFired] s))))) = 1 \<and>
         (client c (Suc (length (requests s))) (buildRequest \<lparr>Page = 1, Limit = 1, ImdbID = imdbID\<rparr>)
            = Inr page \<and> Torrents page = newest # older \<and> l < ID newest \<and>
          Suc (length (sent s)) < consumer \<longrightarrow>
          sent (world (pollLoop c consumer imdbID iv l [TimerFired, TimerFired] s)) =
            sent s @ [\<lparr>Torrent = zeroTorrent, Err = Some err\<rparr>, \<lparr>Torrent = newest, Err = None\<rparr>])"
  using assms
  by (simp add: pollLoop.simps(3) GetTorrents_def send_def Let_def errEvent_def itemEvent_def)

theorem poll_fetch_failure_is_not_fatal_witness:
  "client (clientOf (replay [Inl (TransportError ''timeout''), Inr (pageWith 7 [torrentWithID 7])]))
      (length (requests start)) (buildRequest \<lparr>Page = 1, Limit = 1, ImdbID = ''7908628''\<rparr>)
     = Inl (TransportError ''timeout'') \<and>
   length (sent start) < 2 \<and>
   sent (world (pollLoop
      (clientOf (replay [Inl (TransportError ''timeout''), Inr (pageWith 7 [torrentWithID 7])]))
      2 ''7908628'' 5 6 [TimerFired, TimerFired] start)) =
     [\<lparr>Torrent = zeroTorrent, Err = Some (TransportError ''timeout'')\<rparr>,
      \<lparr>Torrent = torrentWithID 7, Err = None\<rparr>]"
proof -
  let ?c = "clientOf (replay [Inl (TransportError ''timeout''), Inr (pageWith 7 [torrentWithID 7])])"
  let ?req = "buildRequest \<lparr>Page = 1, Limit = 1, ImdbID = ''7908628''\<rparr>"
  have h1: "client ?c (length (requests start)) ?req = Inl (TransportError ''timeout'')"
    by (simp add: replay_def start_def)
  have h2: "length (sent start) < 2"
    by (simp add: start_def)
  have h3: "client ?c (Suc (length (requests start))) ?req = Inr (pageWith 7 [torrentWithID 7])"
    by (simp add: replay_def start_def)
  have h4: "Torrents (pageWith 7 [torrentWithID 7]) = torrentWithID 7 # []"
    by (simp add: pageWith_def)
  have h5: "6 < ID (torrentWithID 7)"
    by (simp add: torrentWithID_def)
  have h6: "Suc (length (sent start)) < 2"
    by (simp add: start_def)
  from poll_fetch_failure_is_not_fatal
         [OF h1 h2, of 5 6 "[]" "pageWith 7 [torrentWithID 7]" "torrentWithID 7" "[]"]
       h3 h4 h5 h6
  have "sent (world (pollLoop ?c 2 ''7908628'' 5 6 [TimerFired, TimerFired] start)) =
        sent start @ [\<lparr>Torrent = zeroTorrent, Err = Some (TransportError ''timeout'')\<rparr>,
                      \<lparr>Torrent = torrentWithID 7, Err = None\<rparr>]"
    by blast
  then have "sent (world (pollLoop ?c 2 ''7908628'' 5 6 [TimerFired, TimerFired] start)) =
        [\<lparr>Torrent = zeroTorrent, Err = Some (TransportError ''timeout'')\<rparr>,
         \<lparr>Torrent = torrentWithID 7, Err = None\<rparr>]"
    by (simp add: start_def)
  with h1 h2 show ?thesis by blast
qed

section \<open>The poll interval\<close>

lemma emitAll_timers: "timers (resyncWorld (emitAll n ts l s)) = timers s"
  by (induction ts arbitrary: l s) (simp_all add: send_def)

lemma emitAll_timers_cases:
  "emitAll n ts l s = Return l' s' \<Longrightarrow> timers s' = timers s"
  "emitAll n ts l s = Block l' s' \<Longrightarrow> timers s' = timers s"
  using emitAll_timers [of n ts l s] by simp_all

lemma resyncPages_timers: "timers (resyncWorld (resyncPages c n i k l s)) = timers s"
proof (induction k arbitrary: l s)
  case 0
  show ?case by simp
next
  case (Suc k)
  show ?case
    by (auto simp add: GetTorrents_eq send_def Suc.IH split: sum.splits resync.splits
        dest!: emitAll_timers_cases)
qed

lemma fullStreamResync_timers: "timers (resyncWorld (fullStreamResync c n i s)) = timers s"
  by (simp add: fullStreamResync_def GetTorrents_eq send_def resyncPages_timers split: sum.splits)

lemma pollLoop_timers:
  "set (timers (world (pollLoop c n i iv l ctx s))) = insert iv (set (timers s))"
proof (induction ctx arbitrary: l s)
  case Nil
  show ?case by simp
next
  case (Cons a ctx)
  show ?case
    by (cases a) (auto simp add: pollLoop_tick Cons.IH Let_def split: sum.splits list.splits)
qed

text \<open>
  C9. Every timer the stream sets (\<open>time.After\<close>, line 229) runs for the supplied
  \<open>RecheckInterval\<close> when that is not zero, and for exactly five minutes, that is
  \<open>5 * 60 * 10^9\<close> nanoseconds, when it is zero.
\<close>

theorem recheck_interval_defaults_to_five_minutes:
  "\<forall>d \<in> set (timers (world (TorrentStream c ctx consumer streamOptions))).
     d = (if RecheckInterval streamOptions = 0 then 5 * 60 * 1000000000
          else RecheckInterval streamOptions)"
proof -
  have resync: "timers (resyncWorld (fullStreamResync c consumer i start)) = []" for i
    by (simp add: fullStreamResync_timers start_def)
  have after: "set (timers (world (case r of
           Block l s1 \<Rightarrow> \<lparr>status = BlockedSend, cursor = l, world = s1\<rparr>
         | Return l s1 \<Rightarrow> pollLoop c consumer i iv l ctx s1))) \<subseteq> {iv}"
    if "timers (resyncWorld r) = []" for r i iv
    using that by (cases r) (simp_all add: pollLoop_timers)
  show ?thesis
    using after [OF resync]
    by (auto simp add: TorrentStream_def Let_def send_def start_def pollLoop_timers
        StreamRecheckInterval_def Minute_def split: if_splits)
qed

theorem recheck_interval_defaults_to_five_minutes_witness:
  "hd (timers (world (TorrentStream (clientOf shrinking) [TimerFired] 9 exampleOptions))) = 300000000000 \<and>
   hd (timers (world (TorrentStream (clientOf shrinking) [TimerFired] 9
         (exampleOptions\<lparr>RecheckInterval := 7\<rparr>)))) = 7"
proof -
  let ?r = "TorrentStream (clientOf shrinking) [TimerFired] 9 exampleOptions"
  let ?r' = "TorrentStream (clientOf shrinking) [TimerFired] 9 (exampleOptions\<lparr>RecheckInterval := 7\<rparr>)"
  have ne: "timers (world ?r) \<noteq> []" "timers (world ?r') \<noteq> []"
    by code_simp+
  then have "hd (timers (world ?r)) \<in> set (timers (world ?r))"
        and "hd (timers (world ?r')) \<in> set (timers (world ?r'))"
    by simp_all
  with recheck_interval_defaults_to_five_minutes [of "clientOf shrinking" "[TimerFired]" 9 exampleOptions]
       recheck_interval_defaults_to_five_minutes
         [of "clientOf shrinking" "[TimerFired]" 9 "exampleOptions\<lparr>RecheckInterval := 7\<rparr>"]
  show ?thesis
    by (simp add: exampleOptions_def)
qed

section \<open>The full resync\<close>

lemma last_last: "last (last (l # xs) # ys) = last (l # xs @ ys)"
  by (cases ys) simp_all

text \<open>The inner loop when the consumer receives every event.\<close>

lemma emitAll_received:
  "length (sent s) + length ts \<le> n \<Longrightarrow>
   emitAll n ts l s = Return (last (l # map ID ts)) (s\<lparr>sent := sent s @ map itemEvent ts\<rparr>)"
proof (induction ts arbitrary: l s)
  case Nil
  show ?case by simp
next
  case (Cons t ts)
  from Cons.prems have room: "length (sent s) < n"
    by simp
  from Cons.prems
  have "emitAll n ts (ID t) (s\<lparr>sent := sent s @ [itemEvent t]\<rparr>) =
        Return (last (ID t # map ID ts))
          (s\<lparr>sent := sent s @ [itemEvent t]\<rparr>\<lparr>sent := sent (s\<lparr>sent := sent s @ [itemEvent t]\<rparr>) @ map itemEvent ts\<rparr>)"
    by (intro Cons.IH) simp
  with room show ?case
    by (simp add: send_def)
qed

text \<open>The inner loop for any consumer: it sends as many torrents as the consumer receives.\<close>

lemma emitAll_eq:
  "emitAll n ts l s =
     (if length ts \<le> n - length (sent s)
      then Return (last (l # map ID ts)) (s\<lparr>sent := sent s @ map itemEvent ts\<rparr>)
      else Block (last (l # map ID (take (n - length (sent s)) ts)))
             (s\<lparr>sent := sent s @ map itemEvent (take (n - length (sent s)) ts)\<rparr>))"
proof (induction ts arbitrary: l s)
  case Nil
  show ?case by simp
next
  case (Cons t ts)
  show ?case
  proof (cases "length (sent s) < n")
    case False
    then show ?thesis by (simp add: send_def)
  next
    case True
    then have "n - length (sent s) = Suc (n - Suc (length (sent s)))"
      by simp
    with True show ?thesis
      by (simp add: send_def Cons.IH)
  qed
qed

text \<open>
  The outer loop while the fetches succeed: after the pages \<open>pgs\<close> have been fetched and
  emitted, the loop stands at round \<open>k - length pgs\<close>.
\<close>

lemma resyncPages_rounds:
  assumes "\<forall>j < length pgs.
             client c (length (requests s) + j)
               (buildRequest \<lparr>Page = int (k - j), Limit = MaxEZTVAPILimit, ImdbID = i\<rparr>) = Inr (pgs ! j)"
      and "length pgs \<le> k"
      and "length (sent s) + length (concat (map Torrents pgs)) \<le> n"
  shows "resyncPages c n i k l s =
         resyncPages c n i (k - length pgs)
           (last (l # map ID (concat (map (\<lambda>pg. rev (Torrents pg)) pgs))))
           (s\<lparr>sent := sent s @ map itemEvent (concat (map (\<lambda>pg. rev (Torrents pg)) pgs)),
              requests := requests s @
                map (\<lambda>j. buildRequest \<lparr>Page = int (k - j), Limit = MaxEZTVAPILimit, ImdbID = i\<rparr>)
                  [0..<length pgs]\<rparr>)"
  using assms
proof (induction pgs arbitrary: k l s)
  case Nil
  show ?case by simp
next
  case (Cons pg pgs)
  from Cons.prems(2) obtain k' where k: "k = Suc k'"
    by (cases k) simp_all
  let ?req = "buildRequest \<lparr>Page = int (Suc k'), Limit = MaxEZTVAPILimit, ImdbID = i\<rparr>"
  let ?s1 = "s\<lparr>requests := requests s @ [?req]\<rparr>"
  let ?ts = "rev (Torrents pg)"
  let ?s2 = "?s1\<lparr>sent := sent ?s1 @ map itemEvent ?ts\<rparr>"
  let ?l2 = "last (l # map ID ?ts)"
  from Cons.prems(1) have fetch: "client c (length (requests s)) ?req = Inr pg"
    unfolding k by fastforce
  from Cons.prems(3) have "length (sent ?s1) + length ?ts \<le> n"
    by simp
  then have inner: "emitAll n ?ts l ?s1 = Return ?l2 ?s2"
    by (rule emitAll_received)
  have step: "resyncPages c n i k l s = resyncPages c n i k' ?l2 ?s2"
    unfolding k using fetch inner by (simp add: GetTorrents_eq)
  have later: "\<forall>j < length pgs.
      client c (length (requests ?s2) + j)
        (buildRequest \<lparr>Page = int (k' - j), Limit = MaxEZTVAPILimit, ImdbID = i\<rparr>) = Inr (pgs ! j)"
  proof (intro allI impI)
    fix j assume "j < length pgs"
    then have "Suc j < length (pg # pgs)" by simp
    from Cons.prems(1) [rule_format, OF this] show
      "client c (length (requests ?s2) + j)
        (buildRequest \<lparr>Page = int (k' - j), Limit = MaxEZTVAPILimit, ImdbID = i\<rparr>) = Inr (pgs ! j)"
      unfolding k by simp
  qed
  from Cons.prems(2) have len: "length pgs \<le> k'"
    unfolding k by simp
  from Cons.prems(3) have room: "length (sent ?s2) + length (concat (map Torrents pgs)) \<le> n"
    by simp
  note rest = Cons.IH [OF later len room, of ?l2]
  show ?case
    unfolding step rest unfolding k
    by (simp add: last_last map_upt_Suc del: upt_Suc last.simps)
qed

text \<open>The cursor a resync ends with is the identifier of the last torrent it has sent.\<close>

lemma emitAll_cursor:
  "\<exists>new. sent (resyncWorld (emitAll n ts l s)) = sent s @ new \<and>
         resyncCursor (emitAll n ts l s) = last (l # itemIDs new)"
proof (induction ts arbitrary: l s)
  case Nil
  show ?case by simp
next
  case (Cons t ts)
  show ?case
  proof (cases "length (sent s) < n")
    case False
    then show ?thesis by (simp add: send_def)
  next
    case True
    let ?s1 = "s\<lparr>sent := sent s @ [itemEvent t]\<rparr>"
    from Cons.IH [of "ID t" ?s1] obtain new
      where "sent (resyncWorld (emitAll n ts (ID t) ?s1)) = sent ?s1 @ new"
        and "resyncCursor (emitAll n ts (ID t) ?s1) = last (ID t # itemIDs new)"
      by blast
    with True have
      "sent (resyncWorld (emitAll n (t # ts) l s)) = sent s @ (itemEvent t # new) \<and>
       resyncCursor (emitAll n (t # ts) l s) = last (l # itemIDs (itemEvent t # new))"
      by (simp add: send_def)
    then show ?thesis by blast
  qed
qed

lemma resyncPages_cursor:
  "\<exists>new. sent (resyncWorld (resyncPages c n i k l s)) = sent s @ new \<and>
         resyncCursor (resyncPages c n i k l s) = last (l # itemIDs new)"
proof (induction k arbitrary: l s)
  case 0
  show ?case by simp
next
  case (Suc k)
  let ?req = "buildRequest \<lparr>Page = int (Suc k), Limit = MaxEZTVAPILimit, ImdbID = i\<rparr>"
  let ?s1 = "s\<lparr>requests := requests s @ [?req]\<rparr>"
  show ?case
  proof (cases "client c (length (requests s)) ?req")
    case (Inl err)
    have "sent (resyncWorld (resyncPages c n i (Suc k) l s)) = sent s @ (if length (sent s) < n then [errEvent err] else []) \<and>
          resyncCursor (resyncPages c n i (Suc k) l s) = last (l # itemIDs (if length (sent s) < n then [errEvent err] else []))"
      using Inl by (simp add: GetTorrents_eq send_def)
    then show ?thesis by blast
  next
    case (Inr page)
    let ?e = "emitAll n (rev (Torrents page)) l ?s1"
    from emitAll_cursor [of n "rev (Torrents page)" l ?s1] obtain new
      where new: "sent (resyncWorld ?e) = sent s @ new" "resyncCursor ?e = last (l # itemIDs new)"
      by auto
    show ?thesis
    proof (cases ?e)
      case (Block l' s')
      with Inr new have
        "sent (resyncWorld (resyncPages c n i (Suc k) l s)) = sent s @ new \<and>
         resyncCursor (resyncPages c n i (Suc k) l s) = last (l # itemIDs new)"
        by (simp add: GetTorrents_eq)
      then show ?thesis by blast
    next
      case (Return l' s')
      from Suc.IH [of l' s'] obtain more
        where more: "sent (resyncWorld (resyncPages c n i k l' s')) = sent s' @ more"
                    "resyncCursor (resyncPages c n i k l' s') = last (l' # itemIDs more)"
        by blast
      from Return new have "sent s' = sent s @ new" "l' = last (l # itemIDs new)"
        by simp_all
      with Inr Return more have
        "sent (resyncWorld (resyncPages c n i (Suc k) l s)) = sent s @ (new @ more) \<and>
         resyncCursor (resyncPages c n i (Suc k) l s) = last (l # itemIDs (new @ more))"
        by (simp add: GetTorrents_eq last_last del: last.simps)
      then show ?thesis by blast
    qed
  qed
qed

lemma fullStreamResync_cursor:
  "\<exists>new. sent (resyncWorld (fullStreamResync c n i s)) = sent s @ new \<and>
         resyncCursor (fullStreamResync c n i s) = last (0 # itemIDs new)"
proof (cases "client c (length (requests s)) (buildRequest \<lparr>Page = 1, Limit = 1, ImdbID = i\<rparr>)")
  case (Inl err)
  have "sent (resyncWorld (fullStreamResync c n i s)) = sent s @ (if length (sent s) < n then [errEvent err] else []) \<and>
        resyncCursor (fullStreamResync c n i s) = last (0 # itemIDs (if length (sent s) < n then [errEvent err] else []))"
    using Inl by (simp add: fullStreamResync_def GetTorrents_eq send_def)
  then show ?thesis by blast
next
  case (Inr page)
  show ?thesis
  proof (cases "TorrentsCount page = 0")
    case True
    with Inr have "sent (resyncWorld (fullStreamResync c n i s)) = sent s @ [] \<and>
        resyncCursor (fullStreamResync c n i s) = last (0 # itemIDs [])"
      by (simp add: fullStreamResync_def GetTorrents_eq)
    then show ?thesis by blast
  next
    case False
    with Inr resyncPages_cursor [of c n i "nat (pageCount (TorrentsCount page))" 0
            "s\<lparr>requests := requests s @ [buildRequest \<lparr>Page = 1, Limit = 1, ImdbID = i\<rparr>]\<rparr>"]
    show ?thesis
      by (simp add: fullStreamResync_def GetTorrents_eq)
  qed
qed

lemma length_concat_rev:
  "length (concat (map (\<lambda>pg. rev (Torrents pg)) pgs)) = length (concat (map Torrents pgs))"
  by (induction pgs) simp_all

text \<open>
  C6. A fetch failure in the resync sends one error event (\<open>Err\<close> is the error of the
  fetch, the torrent is the zero value) and ends the resync with the cursor reached so
  far. If the first fetch (page 1, limit 1) fails, the resync returns 0 after that one
  event and one request. If the first fetch reports a count that is not zero, the pages
  \<open>pgs\<close> are fetched and the next fetch fails, the resync has sent the torrents of
  \<open>pgs\<close> as successful events, each page reversed, then the error event and nothing
  more; the failing request is the last one made; and the cursor returned is the
  identifier of the last torrent sent, or 0 when none was sent.
\<close>

theorem resync_fetch_failure_aborts:
  "(client c (length (requests s)) (buildRequest \<lparr>Page = 1, Limit = 1, ImdbID = i\<rparr>) = Inl err \<and>
    length (sent s) < n \<longrightarrow>
    fullStreamResync c n i s =
      Return 0 (s\<lparr>sent := sent s @ [\<lparr>Torrent = zeroTorrent, Err = Some err\<rparr>],
                  requests := requests s @ [buildRequest \<lparr>Page = 1, Limit = 1, ImdbID = i\<rparr>]\<rparr>)) \<and>
   (client c (length (requests s)) (buildRequest \<lparr>Page = 1, Limit = 1, ImdbID = i\<rparr>) = Inr first \<and>
    TorrentsCount first \<noteq> 0 \<and>
    (\<forall>j < length pgs.
       client c (Suc (length (requests s)) + j)
         (buildRequest \<lparr>Page = int (nat (pageCount (TorrentsCount first)) - j),
                        Limit = MaxEZTVAPILimit, ImdbID = i\<rparr>) = Inr (pgs ! j)) \<and>
    length pgs < nat (pageCount (TorrentsCount first)) \<and>
    client c (Suc (length (requests s)) + length pgs)
      (buildRequest \<lparr>Page = int (nat (pageCount (TorrentsCount first)) - length pgs),
                     Limit = MaxEZTVAPILimit, ImdbID = i\<rparr>) = Inl err \<and>
    length (sent s) + length (concat (map Torrents pgs)) < n \<longrightarrow>
    fullStreamResync c n i s =
      Return (last (0 # map ID (concat (map (\<lambda>pg. rev (Torrents pg)) pgs))))
        (s\<lparr>sent := sent s @
             map (\<lambda>t. \<lparr>Torrent = t, Err = None\<rparr>) (concat (map (\<lambda>pg. rev (Torrents pg)) pgs)) @
             [\<lparr>Torrent = zeroTorrent, Err = Some err\<rparr>],
           requests := requests s @ buildRequest \<lparr>Page = 1, Limit = 1, ImdbID = i\<rparr> #
             map (\<lambda>j. buildRequest \<lparr>Page = int (nat (pageCount (TorrentsCount first)) - j),
                                     Limit = MaxEZTVAPILimit, ImdbID = i\<rparr>)
               [0..<Suc (length pgs)]\<rparr>))"
proof (intro conjI impI)
  assume "client c (length (requests s)) (buildRequest \<lparr>Page = 1, Limit = 1, ImdbID = i\<rparr>) = Inl err \<and>
          length (sent s) < n"
  then show "fullStreamResync c n i s =
      Return 0 (s\<lparr>sent := sent s @ [\<lparr>Torrent = zeroTorrent, Err = Some err\<rparr>],
                  requests := requests s @ [buildRequest \<lparr>Page = 1, Limit = 1, ImdbID = i\<rparr>]\<rparr>)"
    by (simp add: fullStreamResync_def GetTorrents_eq send_def errEvent_def)
next
  define k where "k = nat (pageCount (TorrentsCount first))"
  let ?req1 = "buildRequest \<lparr>Page = 1, Limit = 1, ImdbID = i\<rparr>"
  let ?req = "\<lambda>j. buildRequest \<lparr>Page = int (k - j), Limit = MaxEZTVAPILimit, ImdbID = i\<rparr>"
  let ?items = "concat (map (\<lambda>pg. rev (Torrents pg)) pgs)"
  let ?s1 = "s\<lparr>requests := requests s @ [?req1]\<rparr>"
  let ?ev = "\<lambda>t. \<lparr>Torrent = t, Err = None\<rparr>"
  let ?s2 = "?s1\<lparr>sent := sent ?s1 @ map ?ev ?items,
                 requests := requests ?s1 @ map ?req [0..<length pgs]\<rparr>"
  assume "client c (length (requests s)) ?req1 = Inr first \<and>
    TorrentsCount first \<noteq> 0 \<and>
    (\<forall>j < length pgs.
       client c (Suc (length (requests s)) + j)
         (buildRequest \<lparr>Page = int (nat (pageCount (TorrentsCount first)) - j),
                        Limit = MaxEZTVAPILimit, ImdbID = i\<rparr>) = Inr (pgs ! j)) \<and>
    length pgs < nat (pageCount (TorrentsCount first)) \<and>
    client c (Suc (length (requests s)) + length pgs)
      (buildRequest \<lparr>Page = int (nat (pageCount (TorrentsCount first)) - length pgs),
                     Limit = MaxEZTVAPILimit, ImdbID = i\<rparr>) = Inl err \<and>
    length (sent s) + length (concat (map Torrents pgs)) < n"
  then have first: "client c (length (requests s)) ?req1 = Inr first"
    and count: "TorrentsCount first \<noteq> 0"
    and fetched: "\<forall>j < length pgs. client c (Suc (length (requests s)) + j) (?req j) = Inr (pgs ! j)"
    and more: "length pgs < k"
    and failed: "client c (Suc (length (requests s)) + length pgs) (?req (length pgs)) = Inl err"
    and room: "length (sent s) + length (concat (map Torrents pgs)) < n"
    unfolding k_def by blast+
  from first count have start: "fullStreamResync c n i s = resyncPages c n i k 0 ?s1"
    by (simp add: fullStreamResync_def GetTorrents_eq k_def)
  from fetched have pages: "\<forall>j < length pgs. client c (length (requests ?s1) + j) (?req j) = Inr (pgs ! j)"
    by simp
  from more have len: "length pgs \<le> k"
    by simp
  from room have room1: "length (sent ?s1) + length (concat (map Torrents pgs)) \<le> n"
    by simp
  have event: "itemEvent = ?ev"
    by (rule ext) (simp add: itemEvent_def)
  note rounds = resyncPages_rounds [OF pages len room1, of 0, unfolded event]
  have failure: "resyncPages c n i k' l' s' =
      Return l' (s'\<lparr>requests := requests s' @
                     [buildRequest \<lparr>Page = int k', Limit = MaxEZTVAPILimit, ImdbID = i\<rparr>],
                   sent := sent s' @ [\<lparr>Torrent = zeroTorrent, Err = Some err\<rparr>]\<rparr>)"
    if "client c (length (requests s'))
          (buildRequest \<lparr>Page = int k', Limit = MaxEZTVAPILimit, ImdbID = i\<rparr>) = Inl err"
      and "0 < k'" and "length (sent s') < n" for k' l' s'
  proof -
    from that(2) obtain m where "k' = Suc m"
      by (cases k') simp_all
    with that(1,3) show ?thesis
      by (simp add: GetTorrents_eq send_def errEvent_def)
  qed
  from more have pos: "0 < k - length pgs"
    by simp
  from failed have failing: "client c (length (requests ?s2)) (?req (length pgs)) = Inl err"
    by simp
  from room have last_room: "length (sent ?s2) < n"
    by (simp add: length_concat_rev)
  note abort = failure [OF failing pos last_room, of "last (0 # map ID ?items)"]
  show "fullStreamResync c n i s =
      Return (last (0 # map ID ?items))
        (s\<lparr>sent := sent s @ map ?ev ?items @ [\<lparr>Torrent = zeroTorrent, Err = Some err\<rparr>],
           requests := requests s @ ?req1 #
             map (\<lambda>j. buildRequest \<lparr>Page = int (nat (pageCount (TorrentsCount first)) - j),
                                     Limit = MaxEZTVAPILimit, ImdbID = i\<rparr>)
               [0..<Suc (length pgs)]\<rparr>)"
    unfolding start rounds abort k_def [symmetric] by simp
qed

theorem resync_fetch_failure_aborts_witness:
  "fullStreamResync (clientOf (replay [])) 1 ''7908628'' start =
     Return 0 \<lparr>sent = [\<lparr>Torrent = zeroTorrent, Err = Some (TransportError ''connection refused'')\<rparr>],
               requests = [buildRequest \<lparr>Page = 1, Limit = 1, ImdbID = ''7908628''\<rparr>],
               timers = []\<rparr> \<and>
   fullStreamResync
     (clientOf (replay [Inr (pageWith 150 [torrentWithID 150]),
                        Inr (pageWith 150 [torrentWithID 2, torrentWithID 1])]))
     3 ''7908628'' start =
     Return 2 \<lparr>sent = [\<lparr>Torrent = torrentWithID 1, Err = None\<rparr>,
                       \<lparr>Torrent = torrentWithID 2, Err = None\<rparr>,
                       \<lparr>Torrent = zeroTorrent, Err = Some (TransportError ''connection refused'')\<rparr>],
               requests = [buildRequest \<lparr>Page = 1, Limit = 1, ImdbID = ''7908628''\<rparr>,
                           buildRequest \<lparr>Page = 2, Limit = 100, ImdbID = ''7908628''\<rparr>,
                           buildRequest \<lparr>Page = 1, Limit = 100, ImdbID = ''7908628''\<rparr>],
               timers = []\<rparr> \<and>
   map Err (sent (resyncWorld (fullStreamResync
     (clientOf (replay [Inr (pageWith 150 [torrentWithID 150]),
                        Inr (pageWith 150 [torrentWithID 2, torrentWithID 1])]))
     3 ''7908628'' start))) = [None, None, Some (TransportError ''connection refused'')]"
proof -
  let ?c = "clientOf (replay [Inr (pageWith 150 [torrentWithID 150]),
                              Inr (pageWith 150 [torrentWithID 2, torrentWithID 1])])"
  have pages: "pageCount 150 = 2"
    by code_simp
  have one: "fullStreamResync (clientOf (replay [])) 1 ''7908628'' start =
     Return 0 \<lparr>sent = [\<lparr>Torrent = zeroTorrent, Err = Some (TransportError ''connection refused'')\<rparr>],
               requests = [buildRequest \<lparr>Page = 1, Limit = 1, ImdbID = ''7908628''\<rparr>],
               timers = []\<rparr>"
    using resync_fetch_failure_aborts
            [of "clientOf (replay [])" start "''7908628''" "TransportError ''connection refused''" 1]
    by (simp add: replay_def start_def)
  have two: "fullStreamResync ?c 3 ''7908628'' start =
     Return 2 \<lparr>sent = [\<lparr>Torrent = torrentWithID 1, Err = None\<rparr>,
                       \<lparr>Torrent = torrentWithID 2, Err = None\<rparr>,
                       \<lparr>Torrent = zeroTorrent, Err = Some (TransportError ''connection refused'')\<rparr>],
               requests = [buildRequest \<lparr>Page = 1, Limit = 1, ImdbID = ''7908628''\<rparr>,
                           buildRequest \<lparr>Page = 2, Limit = 100, ImdbID = ''7908628''\<rparr>,
                           buildRequest \<lparr>Page = 1, Limit = 100, ImdbID = ''7908628''\<rparr>],
               timers = []\<rparr>"
    using resync_fetch_failure_aborts
            [of ?c start "''7908628''" "TransportError ''connection refused''" 3
                "pageWith 150 [torrentWithID 150]"
                "[pageWith 150 [torrentWithID 2, torrentWithID 1]]"]
    by (simp add: replay_def start_def pageWith_def pages torrentWithID_def MaxEZTVAPILimit_def)
  have run: "map Err (sent (resyncWorld (fullStreamResync ?c 3 ''7908628'' start))) =
        [None, None, Some (TransportError ''connection refused'')]"
    by code_simp
  have reached: "resyncCursor (fullStreamResync ?c 3 ''7908628'' start) = 2"
    by code_simp
  from one two run reached show ?thesis by blast
qed

section \<open>A resync over 250 torrents\<close>

lemma three_pages:
  assumes "length items = 250"
  shows "rev (take 100 (drop 200 items)) @ rev (take 100 (drop 100 items)) @ rev (take 100 items)
         = rev (items :: 'a list)"
proof -
  have "take 100 (drop 200 items) = drop 200 items"
    using assms by simp
  moreover have "drop 200 items = drop 100 (drop 100 items)"
    by simp
  ultimately have "take 100 items @ take 100 (drop 100 items) @ take 100 (drop 200 items) = items"
    by (metis append_take_drop_id)
  then have "rev (take 100 items @ take 100 (drop 100 items) @ take 100 (drop 200 items)) = rev items"
    by simp
  then show ?thesis
    by simp
qed

text \<open>
  C3. Let the upstream hold 250 torrents, newest first, and answer each request of the
  resync from that list. Then \<open>pageCount 250 = 3\<close>; the resync asks for page 1 with limit
  1, then for the pages 3, 2 and 1 with limit 100, in this order, and for nothing else; it
  sends 250 events and nothing else, all of them successful, carrying the 250 torrents
  oldest first; the identifiers of the events sent are strictly increasing; and it
  returns the identifier of the newest torrent.
\<close>

theorem resync_250_torrents:
  assumes "length items = 250"
      and "sorted_wrt (\<lambda>a b. ID b < ID a) items"
      and "\<forall>m. \<forall>(p, l) \<in> set [(1, 1), (3, 100), (2, 100), (1, 100)].
             client c m (buildRequest \<lparr>Page = int p, Limit = int l, ImdbID = i\<rparr>)
               = Inr (serverPage items p l)"
      and "length (sent s) + 250 \<le> n"
  shows "pageCount 250 = 3 \<and>
         fullStreamResync c n i s =
           Return (ID (hd items))
             (s\<lparr>requests := requests s @
                  map (\<lambda>(p, l). buildRequest \<lparr>Page = p, Limit = l, ImdbID = i\<rparr>)
                    [(1, 1), (3, 100), (2, 100), (1, 100)],
                sent := sent s @ map (\<lambda>t. \<lparr>Torrent = t, Err = None\<rparr>) (rev items)\<rparr>) \<and>
         map (\<lambda>r. (url r, take 2 (query r)))
             (drop (length (requests s)) (requests (resyncWorld (fullStreamResync c n i s)))) =
           [(''https://eztv.re/api/get-torrents'', [(''page'', ''1''), (''limit'', ''1'')]),
            (''https://eztv.re/api/get-torrents'', [(''page'', ''3''), (''limit'', ''100'')]),
            (''https://eztv.re/api/get-torrents'', [(''page'', ''2''), (''limit'', ''100'')]),
            (''https://eztv.re/api/get-torrents'', [(''page'', ''1''), (''limit'', ''100'')])] \<and>
         length (drop (length (sent s)) (sent (resyncWorld (fullStreamResync c n i s)))) = 250 \<and>
         map Torrent (drop (length (sent s)) (sent (resyncWorld (fullStreamResync c n i s)))) = rev items \<and>
         (\<forall>ev \<in> set (drop (length (sent s)) (sent (resyncWorld (fullStreamResync c n i s)))). Err ev = None) \<and>
         itemIDs (drop (length (sent s)) (sent (resyncWorld (fullStreamResync c n i s)))) = map ID (rev items) \<and>
         sorted_wrt (<) (itemIDs (drop (length (sent s)) (sent (resyncWorld (fullStreamResync c n i s)))))"
proof -
  let ?req = "\<lambda>p l. buildRequest \<lparr>Page = p, Limit = l, ImdbID = i\<rparr>"
  let ?ev = "\<lambda>t. \<lparr>Torrent = t, Err = None\<rparr>"
  let ?p3 = "take 100 (drop 200 items)"
  let ?p2 = "take 100 (drop 100 items)"
  let ?p1 = "take 100 items"
  have pages: "pageCount 250 = 3"
    by code_simp
  from assms(3) have answers:
    "client c m (?req 1 1) = Inr (serverPage items 1 1)"
    "client c m (?req 3 100) = Inr (serverPage items 3 100)"
    "client c m (?req 2 100) = Inr (serverPage items 2 100)"
    "client c m (?req 1 100) = Inr (serverPage items 1 100)" for m
    by fastforce+
  have served: "TorrentsCount (serverPage items 1 1) = 250"
    "Torrents (serverPage items 3 100) = ?p3"
    "Torrents (serverPage items 2 100) = ?p2"
    "Torrents (serverPage items 1 100) = ?p1"
    using assms(1) by (simp_all add: serverPage_def)
  have event: "itemEvent = ?ev"
    by (rule ext) (simp add: itemEvent_def)
  have round: "resyncPages c n i (Suc k) l s' =
      resyncPages c n i k (last (l # map ID (rev ts)))
        (s'\<lparr>requests := requests s' @ [?req (int (Suc k)) 100],
            sent := sent s' @ map ?ev (rev ts)\<rparr>)"
    if "client c (length (requests s')) (?req (int (Suc k)) 100) = Inr pg"
      and "Torrents pg = ts" and "length ts \<le> n - length (sent s')" for k l s' pg ts
    using that by (simp add: GetTorrents_eq emitAll_eq event MaxEZTVAPILimit_def)
  let ?s1 = "s\<lparr>requests := requests s @ [?req 1 1]\<rparr>"
  let ?s2 = "?s1\<lparr>requests := requests ?s1 @ [?req (int (Suc (Suc (Suc 0)))) 100],
                 sent := sent ?s1 @ map ?ev (rev ?p3)\<rparr>"
  let ?s3 = "?s2\<lparr>requests := requests ?s2 @ [?req (int (Suc (Suc 0))) 100],
                 sent := sent ?s2 @ map ?ev (rev ?p2)\<rparr>"
  let ?s4 = "?s3\<lparr>requests := requests ?s3 @ [?req (int (Suc 0)) 100],
                 sent := sent ?s3 @ map ?ev (rev ?p1)\<rparr>"
  let ?l2 = "last (0 # map ID (rev ?p3))"
  let ?l3 = "last (?l2 # map ID (rev ?p2))"
  let ?l4 = "last (?l3 # map ID (rev ?p1))"
  from pages have three: "nat (pageCount 250) = Suc (Suc (Suc 0))"
    by simp
  have start: "fullStreamResync c n i s = resyncPages c n i (Suc (Suc (Suc 0))) 0 ?s1"
    using answers(1) served(1)
    by (simp add: fullStreamResync_def GetTorrents_eq three del: resyncPages.simps)
  have fits: "length ?p3 \<le> n - length (sent ?s1)" "length ?p2 \<le> n - length (sent ?s2)"
    "length ?p1 \<le> n - length (sent ?s3)"
    using assms(1,4) by simp_all
  have asked: "client c (length (requests ?s1)) (?req (int (Suc (Suc (Suc 0)))) 100) = Inr (serverPage items 3 100)"
    "client c (length (requests ?s2)) (?req (int (Suc (Suc 0))) 100) = Inr (serverPage items 2 100)"
    "client c (length (requests ?s3)) (?req (int (Suc 0)) 100) = Inr (serverPage items 1 100)"
    using answers by simp_all
  note r3 = round [OF asked(1) served(2) fits(1), of 0]
  note r2 = round [OF asked(2) served(3) fits(2), of ?l2]
  note r1 = round [OF asked(3) served(4) fits(3), of ?l3]
  have all: "rev ?p3 @ rev ?p2 @ rev ?p1 = rev items"
    using three_pages [OF assms(1)] .
  from assms(1) have "items \<noteq> []"
    by auto
  then have newest: "last (0 # map ID (rev items)) = ID (hd items)"
    by (simp add: last_map last_rev)
  have "?l4 = last (0 # map ID (rev ?p3 @ rev ?p2 @ rev ?p1))"
    by (simp only: last_last map_append append_assoc)
  with all newest have cursor: "?l4 = ID (hd items)"
    by simp
  have "sent ?s4 = sent s @ map ?ev (rev ?p3 @ rev ?p2 @ rev ?p1)"
    by simp
  with all have sent: "sent ?s4 = sent s @ map ?ev (rev items)"
    by simp
  have "fullStreamResync c n i s = Return ?l4 ?s4"
    by (simp only: start r3 r2 r1 resyncPages.simps(1))
  also have "?s4 = s\<lparr>requests := requests s @
                  map (\<lambda>(p, l). buildRequest \<lparr>Page = p, Limit = l, ImdbID = i\<rparr>)
                    [(1, 1), (3, 100), (2, 100), (1, 100)],
                sent := sent s @ map ?ev (rev items)\<rparr>"
    using sent by simp
  finally have literal: "fullStreamResync c n i s =
           Return (ID (hd items))
             (s\<lparr>requests := requests s @
                  map (\<lambda>(p, l). buildRequest \<lparr>Page = p, Limit = l, ImdbID = i\<rparr>)
                    [(1, 1), (3, 100), (2, 100), (1, 100)],
                sent := sent s @ map ?ev (rev items)\<rparr>)"
    using cursor by simp
  have asked_for: "map (\<lambda>r. (url r, take 2 (query r)))
             (drop (length (requests s)) (requests (resyncWorld (fullStreamResync c n i s)))) =
           [(''https://eztv.re/api/get-torrents'', [(''page'', ''1''), (''limit'', ''1'')]),
            (''https://eztv.re/api/get-torrents'', [(''page'', ''3''), (''limit'', ''100'')]),
            (''https://eztv.re/api/get-torrents'', [(''page'', ''2''), (''limit'', ''100'')]),
            (''https://eztv.re/api/get-torrents'', [(''page'', ''1''), (''limit'', ''100'')])]"
    unfolding literal
    by (simp add: buildRequest_def EZTVBaseURL_def Itoa_def natToString.simps)
  have new: "drop (length (sent s)) (sent (resyncWorld (fullStreamResync c n i s))) = map ?ev (rev items)"
    unfolding literal by simp
  have events: "length (map ?ev (rev items)) = 250"
    "map Torrent (map ?ev (rev items)) = rev items"
    "\<forall>ev \<in> set (map ?ev (rev items)). Err ev = None"
    "itemIDs (map ?ev (rev items)) = map ID (rev items)"
    using assms(1) by (simp_all add: itemIDs_def comp_def)
  from assms(2) have sorted: "sorted_wrt (<) (map ID (rev items))"
    by (simp add: sorted_wrt_map sorted_wrt_rev)
  from pages literal asked_for events sorted show ?thesis
    unfolding new by simp
qed

lemma catalogue_sorted: "sorted_wrt (\<lambda>a b. ID b < ID a) (catalogue n)"
  by (simp add: catalogue_def sorted_wrt_map sorted_wrt_rev torrentWithID_def del: upt_Suc)

theorem resync_250_torrents_witness:
  "fullStreamResync (clientOf (upstream (catalogue 250) ''7908628'')) 250 ''7908628'' start =
     Return (ID (hd (catalogue 250)))
       (start\<lparr>requests := requests start @
            map (\<lambda>(p, l). buildRequest \<lparr>Page = p, Limit = l, ImdbID = ''7908628''\<rparr>)
              [(1, 1), (3, 100), (2, 100), (1, 100)],
          sent := sent start @ map (\<lambda>t. \<lparr>Torrent = t, Err = None\<rparr>) (rev (catalogue 250))\<rparr>) \<and>
   itemIDs (drop (length (sent start))
     (sent (resyncWorld
        (fullStreamResync (clientOf (upstream (catalogue 250) ''7908628'')) 250 ''7908628'' start)))) =
     map ID (rev (catalogue 250)) \<and>
   itemIDs (sent (resyncWorld
        (fullStreamResync (clientOf (upstream (catalogue 250) ''7908628'')) 250 ''7908628'' start))) =
     map int [1..<251]"
proof -
  let ?c = "clientOf (upstream (catalogue 250) ''7908628'')"
  have len: "length (catalogue 250) = 250"
    by (simp add: catalogue_def)
  have distinct_requests:
    "buildRequest \<lparr>Page = 1, Limit = 100, ImdbID = ''7908628''\<rparr>
       \<noteq> buildRequest \<lparr>Page = 1, Limit = 1, ImdbID = ''7908628''\<rparr>"
    "buildRequest \<lparr>Page = 2, Limit = 100, ImdbID = ''7908628''\<rparr>
       \<noteq> buildRequest \<lparr>Page = 1, Limit = 1, ImdbID = ''7908628''\<rparr>"
    "buildRequest \<lparr>Page = 2, Limit = 100, ImdbID = ''7908628''\<rparr>
       \<noteq> buildRequest \<lparr>Page = 1, Limit = 100, ImdbID = ''7908628''\<rparr>"
    "buildRequest \<lparr>Page = 3, Limit = 100, ImdbID = ''7908628''\<rparr>
       \<noteq> buildRequest \<lparr>Page = 1, Limit = 1, ImdbID = ''7908628''\<rparr>"
    "buildRequest \<lparr>Page = 3, Limit = 100, ImdbID = ''7908628''\<rparr>
       \<noteq> buildRequest \<lparr>Page = 1, Limit = 100, ImdbID = ''7908628''\<rparr>"
    "buildRequest \<lparr>Page = 3, Limit = 100, ImdbID = ''7908628''\<rparr>
       \<noteq> buildRequest \<lparr>Page = 2, Limit = 100, ImdbID = ''7908628''\<rparr>"
    by (simp_all add: buildRequest_def Itoa_def natToString.simps)
  have server: "\<forall>m. \<forall>(p, l) \<in> set [(1, 1), (3, 100), (2, 100), (1, 100)].
      client ?c m (buildRequest \<lparr>Page = int p, Limit = int l, ImdbID = ''7908628''\<rparr>)
        = Inr (serverPage (catalogue 250) p l)"
    using distinct_requests by (simp add: upstream_def)
  have room: "length (sent start) + 250 \<le> 250"
    by (simp add: start_def)
  have run: "itemIDs (sent (resyncWorld (fullStreamResync ?c 250 ''7908628'' start))) = map int [1..<251]"
    by code_simp
  from resync_250_torrents [OF len catalogue_sorted server room] run
  show ?thesis by blast
qed

section \<open>Order of the emitted torrents and the cursor\<close>

lemma sorted_le_last:
  "sorted_wrt (<) xs \<Longrightarrow> x \<in> set xs \<Longrightarrow> x \<le> last (xs :: int list)"
proof (induction xs)
  case Nil
  then show ?case by simp
next
  case (Cons a xs)
  show ?case
  proof (cases "xs = []")
    case True
    with Cons.prems show ?thesis by simp
  next
    case False
    then have in_set: "last xs \<in> set xs" by simp
    from Cons.prems(1) have above: "\<forall>y \<in> set xs. a < y" and sorted: "sorted_wrt (<) xs"
      by simp_all
    from Cons.prems(2) have "x = a \<or> x \<in> set xs" by simp
    then have "x \<le> last xs"
    proof
      assume "x = a"
      with above in_set show ?thesis by force
    next
      assume "x \<in> set xs"
      with sorted show ?thesis by (rule Cons.IH)
    qed
    with False show ?thesis by simp
  qed
qed

text \<open>
  The poll loop keeps the identifiers sent so far strictly increasing when none of them
  exceeds the cursor it starts with.
\<close>

lemma pollLoop_sorted:
  assumes "sorted_wrt (<) (itemIDs (sent s))"
      and "\<forall>x \<in> set (itemIDs (sent s)). x \<le> l"
  shows "sorted_wrt (<) (itemIDs (sent (world (pollLoop c n i iv l ctx s))))"
  using assms
proof (induction ctx arbitrary: l s)
  case Nil
  then show ?case by simp
next
  case (Cons a ctx)
  show ?case
  proof (cases a)
    case CtxDone
    with Cons.prems show ?thesis by simp
  next
    case TimerFired
    let ?s1 = "s\<lparr>timers := timers s @ [iv],
                 requests := requests s @ [buildRequest \<lparr>Page = 1, Limit = 1, ImdbID = i\<rparr>]\<rparr>"
    have same: "sorted_wrt (<) (itemIDs (sent (world (pollLoop c n i iv l ctx ?s1))))"
      using Cons.prems by (intro Cons.IH) simp_all
    have error: "sorted_wrt (<) (itemIDs (sent (world
          (pollLoop c n i iv l ctx (?s1\<lparr>sent := sent s @ [errEvent err]\<rparr>)))))" for err
      using Cons.prems by (intro Cons.IH) simp_all
    have item: "sorted_wrt (<) (itemIDs (sent (world
          (pollLoop c n i iv (ID t) ctx (?s1\<lparr>sent := sent s @ [itemEvent t]\<rparr>)))))"
      if "l < ID t" for t
      using Cons.prems that by (intro Cons.IH) (auto simp add: sorted_wrt_append)
    show ?thesis
      unfolding TimerFired pollLoop_tick
      using same error item Cons.prems(1)
      by (simp add: Let_def split: sum.splits list.splits)
  qed
qed

text \<open>What the poll loop sends is new: it lies strictly above the cursor and increases.\<close>

lemma pollLoop_new_items:
  "\<exists>new. sent (world (pollLoop c n i iv l ctx s)) = sent s @ new \<and>
         sorted_wrt (<) (l # itemIDs new)"
proof (induction ctx arbitrary: l s)
  case Nil
  show ?case by simp
next
  case (Cons a ctx)
  show ?case
  proof (cases a)
    case CtxDone
    then show ?thesis by simp
  next
    case TimerFired
    let ?s1 = "s\<lparr>timers := timers s @ [iv],
                 requests := requests s @ [buildRequest \<lparr>Page = 1, Limit = 1, ImdbID = i\<rparr>]\<rparr>"
    have same: "\<exists>new. sent (world (pollLoop c n i iv l ctx ?s1)) = sent s @ new \<and>
                      sorted_wrt (<) (l # itemIDs new)"
      using Cons.IH [of l ?s1] by simp
    have error: "\<exists>new. sent (world (pollLoop c n i iv l ctx (?s1\<lparr>sent := sent s @ [errEvent err]\<rparr>)))
                        = sent s @ new \<and> sorted_wrt (<) (l # itemIDs new)" for err
    proof -
      from Cons.IH [of l "?s1\<lparr>sent := sent s @ [errEvent err]\<rparr>"] obtain new
        where "sent (world (pollLoop c n i iv l ctx (?s1\<lparr>sent := sent s @ [errEvent err]\<rparr>)))
                 = sent s @ (errEvent err # new)"
          and "sorted_wrt (<) (l # itemIDs (errEvent err # new))"
        by auto
      then show ?thesis by blast
    qed
    have item: "\<exists>new. sent (world (pollLoop c n i iv (ID t) ctx (?s1\<lparr>sent := sent s @ [itemEvent t]\<rparr>)))
                        = sent s @ new \<and> sorted_wrt (<) (l # itemIDs new)"
      if "l < ID t" for t
    proof -
      from Cons.IH [of "ID t" "?s1\<lparr>sent := sent s @ [itemEvent t]\<rparr>"] obtain new
        where new: "sent (world (pollLoop c n i iv (ID t) ctx (?s1\<lparr>sent := sent s @ [itemEvent t]\<rparr>)))
                 = sent s @ (itemEvent t # new)"
          and "sorted_wrt (<) (ID t # itemIDs new)"
        by auto
      with that have "sorted_wrt (<) (l # itemIDs (itemEvent t # new))"
        by auto
      with new show ?thesis by blast
    qed
    have blocked: "\<exists>new. sent s = sent s @ new \<and> sorted_wrt (<) (l # itemIDs new)"
      by (rule exI [of _ "[]"]) simp
    show ?thesis
      unfolding TimerFired pollLoop_tick
      using same error item blocked
      by (simp add: Let_def split: sum.splits list.splits)
  qed
qed

lemma pollLoop_cursor_ge: "l \<le> cursor (pollLoop c n i iv l ctx s)"
proof (induction ctx arbitrary: l s)
  case Nil
  show ?case by simp
next
  case (Cons a ctx)
  show ?case
  proof (cases a)
    case CtxDone
    then show ?thesis by simp
  next
    case TimerFired
    have item: "l \<le> cursor (pollLoop c n i iv (ID t) ctx s')" if "l < ID t" for t s'
      using Cons.IH [of "ID t" s'] that by simp
    show ?thesis
      unfolding TimerFired pollLoop_tick
      using Cons.IH [of l] item
      by (auto simp add: Let_def not_le split: sum.splits list.splits)
  qed
qed

lemma pollLoop_cursor_prefix:
  "cursor (pollLoop c n i iv l ctx s) \<le> cursor (pollLoop c n i iv l (ctx @ later) s)"
proof (induction ctx arbitrary: l s)
  case Nil
  show ?case by (simp add: pollLoop_cursor_ge)
next
  case (Cons a ctx)
  show ?case
  proof (cases a)
    case CtxDone
    then show ?thesis by simp
  next
    case TimerFired
    show ?thesis
      unfolding TimerFired append_Cons pollLoop_tick
      using Cons.IH
      by (simp add: Let_def split: sum.splits list.splits)
  qed
qed

lemma newest_first_reversed:
  assumes "sorted_wrt (\<lambda>a b. ID b < ID a) (concat (map Torrents (rev pgs)))"
  shows "sorted_wrt (<) (map ID (concat (map (\<lambda>pg. rev (Torrents pg)) pgs)))"
proof -
  have "concat (map (\<lambda>pg. rev (Torrents pg)) pgs) = rev (concat (map Torrents (rev pgs)))"
    by (simp add: rev_concat rev_map comp_def)
  with assms show ?thesis
    by (simp add: sorted_wrt_map sorted_wrt_rev)
qed

text \<open>
  C1, as the code has it. The resync sends the torrents of the pages it is served, from
  the last page to the first, each page reversed, without looking at identifiers; the
  poll loop then sends a torrent only when its identifier exceeds the cursor, which after
  a resync is the identifier of the last torrent sent. So the identifiers of one stream
  are strictly increasing whenever the pages served to its resync, put in the order of
  their page numbers, list torrents strictly newest first, whatever the poll loop is
  served; and always when the stream is opened with a \<open>LastTorrentID\<close> other than zero.
\<close>

theorem emitted_ids_strictly_increase:
  assumes "LastTorrentID streamOptions = 0 \<longrightarrow>
     (case client c 0 (buildRequest
              \<lparr>Page = 1, Limit = 1, ImdbID = TrimPrefix (S_ImdbID streamOptions) ''tt''\<rparr>) of
        Inl err \<Rightarrow> True
      | Inr first \<Rightarrow>
          sorted_wrt (\<lambda>a b. ID b < ID a)
            (concat (map Torrents (rev
               (servedPages c (TrimPrefix (S_ImdbID streamOptions) ''tt'') 1
                  (nat (pageCount (TorrentsCount first))))))))"
  shows "sorted_wrt (<) (itemIDs (sent (world (TorrentStream c ctx consumer streamOptions)))) \<and>
         (\<forall>first.
            client c 0 (buildRequest
              \<lparr>Page = 1, Limit = 1, ImdbID = TrimPrefix (S_ImdbID streamOptions) ''tt''\<rparr>) = Inr first \<longrightarrow>
            (\<exists>m. itemIDs (sent (resyncWorld
                    (fullStreamResync c consumer (TrimPrefix (S_ImdbID streamOptions) ''tt'') start))) =
                 take m (map ID (concat (map (\<lambda>pg. rev (Torrents pg))
                   (servedPages c (TrimPrefix (S_ImdbID streamOptions) ''tt'') 1
                      (nat (pageCount (TorrentsCount first)))))))))"
proof
  let ?i = "TrimPrefix (S_ImdbID streamOptions) ''tt''"
  let ?req = "buildRequest \<lparr>Page = 1, Limit = 1, ImdbID = ?i\<rparr>"
  let ?r = "fullStreamResync c consumer ?i start"
  have ids: "itemIDs (map itemEvent ts) = map ID ts" for ts
    by (induction ts) (simp_all add: itemIDs_def itemEvent_def)
  have rounds: "\<exists>m. itemIDs (sent (resyncWorld (resyncPages c consumer i k l s))) =
         itemIDs (sent s) @
         take m (map ID (concat (map (\<lambda>pg. rev (Torrents pg)) (servedPages c i (length (requests s)) k))))"
    for i k l s
  proof (induction k arbitrary: l s)
    case 0
    show ?case by simp
  next
    case (Suc k)
    let ?req = "buildRequest \<lparr>Page = int (Suc k), Limit = MaxEZTVAPILimit, ImdbID = i\<rparr>"
    let ?s1 = "s\<lparr>requests := requests s @ [?req]\<rparr>"
    show ?case
    proof (cases "client c (length (requests s)) ?req")
      case (Inl err)
      then have "itemIDs (sent (resyncWorld (resyncPages c consumer i (Suc k) l s))) =
          itemIDs (sent s) @
          take 0 (map ID (concat (map (\<lambda>pg. rev (Torrents pg)) (servedPages c i (length (requests s)) (Suc k)))))"
        by (simp add: GetTorrents_eq send_def)
      then show ?thesis by blast
    next
      case (Inr page)
      let ?ts = "rev (Torrents page)"
      let ?rest = "map ID (concat (map (\<lambda>pg. rev (Torrents pg)) (servedPages c i (Suc (length (requests s))) k)))"
      from Inr have served: "map ID (concat (map (\<lambda>pg. rev (Torrents pg)) (servedPages c i (length (requests s)) (Suc k))))
          = map ID ?ts @ ?rest"
        by simp
      show ?thesis
      proof (cases "length ?ts \<le> consumer - length (sent ?s1)")
        case False
        then have "emitAll consumer ?ts l ?s1 =
            Block (last (l # map ID (take (consumer - length (sent s)) ?ts)))
              (?s1\<lparr>sent := sent s @ map itemEvent (take (consumer - length (sent s)) ?ts)\<rparr>)"
          by (simp add: emitAll_eq)
        with Inr have "itemIDs (sent (resyncWorld (resyncPages c consumer i (Suc k) l s))) =
            itemIDs (sent s) @ map ID (take (consumer - length (sent s)) ?ts)"
          by (simp add: GetTorrents_eq ids)
        also from False have "map ID (take (consumer - length (sent s)) ?ts) = take (consumer - length (sent s)) (map ID ?ts @ ?rest)"
          by (simp add: take_map)
        finally show ?thesis
          unfolding served by blast
      next
        case True
        let ?s2 = "?s1\<lparr>sent := sent s @ map itemEvent ?ts\<rparr>"
        from True have inner: "emitAll consumer ?ts l ?s1 = Return (last (l # map ID ?ts)) ?s2"
          by (simp add: emitAll_eq)
        from Suc.IH [of "last (l # map ID ?ts)" ?s2] obtain m
          where "itemIDs (sent (resyncWorld (resyncPages c consumer i k (last (l # map ID ?ts)) ?s2))) =
                 itemIDs (sent ?s2) @ take m ?rest"
          by auto
        with Inr inner have "itemIDs (sent (resyncWorld (resyncPages c consumer i (Suc k) l s))) =
            itemIDs (sent s) @ take (length (map ID ?ts) + m) (map ID ?ts @ ?rest)"
          by (simp add: GetTorrents_eq ids del: length_map length_rev)
        then show ?thesis
          unfolding served by blast
      qed
    qed
  qed
  have served: "\<exists>m. itemIDs (sent (resyncWorld ?r)) =
      take m (map ID (concat (map (\<lambda>pg. rev (Torrents pg))
        (servedPages c ?i 1 (nat (pageCount (TorrentsCount first)))))))"
    if "client c 0 ?req = Inr first" for first
  proof (cases "TorrentsCount first = 0")
    case True
    with that have "itemIDs (sent (resyncWorld ?r)) =
        take 0 (map ID (concat (map (\<lambda>pg. rev (Torrents pg))
          (servedPages c ?i 1 (nat (pageCount (TorrentsCount first)))))))"
      by (simp add: fullStreamResync_def GetTorrents_eq start_def)
    then show ?thesis by blast
  next
    case False
    with that rounds [of ?i "nat (pageCount (TorrentsCount first))" 0
        "start\<lparr>requests := requests start @ [?req]\<rparr>"]
    show ?thesis
      by (simp add: fullStreamResync_def GetTorrents_eq start_def)
  qed
  then show "\<forall>first. client c 0 ?req = Inr first \<longrightarrow>
      (\<exists>m. itemIDs (sent (resyncWorld ?r)) =
         take m (map ID (concat (map (\<lambda>pg. rev (Torrents pg))
           (servedPages c ?i 1 (nat (pageCount (TorrentsCount first))))))))"
    by blast
  show "sorted_wrt (<) (itemIDs (sent (world (TorrentStream c ctx consumer streamOptions))))"
  proof (cases "?i = []")
    case True
    then show ?thesis
      by (simp add: TorrentStream_def send_def start_def)
  next
    case missing: False
    show ?thesis
    proof (cases "LastTorrentID streamOptions = 0")
      case False
      have "sorted_wrt (<) (itemIDs (sent (world (pollLoop c consumer ?i iv (LastTorrentID streamOptions) ctx start))))" for iv
        by (rule pollLoop_sorted) (simp_all add: start_def)
      with missing False show ?thesis
        by (simp add: TorrentStream_def Let_def)
    next
      case True
      have sorted: "sorted_wrt (<) (itemIDs (sent (resyncWorld ?r)))"
      proof (cases "client c 0 ?req")
        case (Inl err)
        then show ?thesis
          by (simp add: fullStreamResync_def GetTorrents_eq send_def start_def)
      next
        case (Inr first)
        with True assms have "sorted_wrt (\<lambda>a b. ID b < ID a)
            (concat (map Torrents (rev (servedPages c ?i 1 (nat (pageCount (TorrentsCount first)))))))"
          by simp
        then have "sorted_wrt (<) (map ID (concat (map (\<lambda>pg. rev (Torrents pg))
            (servedPages c ?i 1 (nat (pageCount (TorrentsCount first)))))))"
          by (rule newest_first_reversed)
        moreover from served [OF Inr] obtain m
          where "itemIDs (sent (resyncWorld ?r)) =
            take m (map ID (concat (map (\<lambda>pg. rev (Torrents pg))
              (servedPages c ?i 1 (nat (pageCount (TorrentsCount first)))))))" ..
        ultimately show ?thesis
          by (simp add: sorted_wrt_take)
      qed
      from fullStreamResync_cursor [of c consumer ?i start] obtain new
        where "sent (resyncWorld ?r) = sent start @ new" and "resyncCursor ?r = last (0 # itemIDs new)"
        by blast
      then have last_sent: "resyncCursor ?r = last (0 # itemIDs (sent (resyncWorld ?r)))"
        by (simp add: start_def)
      have below: "\<forall>x \<in> set (itemIDs (sent (resyncWorld ?r))). x \<le> resyncCursor ?r"
      proof
        fix x assume x: "x \<in> set (itemIDs (sent (resyncWorld ?r)))"
        then have "itemIDs (sent (resyncWorld ?r)) \<noteq> []" by auto
        with last_sent have "resyncCursor ?r = last (itemIDs (sent (resyncWorld ?r)))" by simp
        with sorted_le_last [OF sorted x] show "x \<le> resyncCursor ?r" by simp
      qed
      show ?thesis
      proof (cases ?r)
        case (Block l s1)
        with missing True sorted show ?thesis
          by (simp add: TorrentStream_def Let_def)
      next
        case (Return l s1)
        with sorted below
        have "sorted_wrt (<) (itemIDs (sent (world (pollLoop c consumer ?i iv l ctx s1))))" for iv
          by (intro pollLoop_sorted) simp_all
        with missing True Return show ?thesis
          by (simp add: TorrentStream_def Let_def)
      qed
    qed
  qed
qed

theorem emitted_ids_strictly_increase_witness:
  "itemIDs (sent (world (TorrentStream (clientOf growing) [TimerFired] 5 exampleOptions))) = [1, 2, 3] \<and>
   sorted_wrt (<) (itemIDs (sent (world (TorrentStream (clientOf growing) [TimerFired] 5 exampleOptions))))"
proof -
  have pages: "LastTorrentID exampleOptions = 0 \<longrightarrow>
     (case client (clientOf growing) 0 (buildRequest
              \<lparr>Page = 1, Limit = 1, ImdbID = TrimPrefix (S_ImdbID exampleOptions) ''tt''\<rparr>) of
        Inl err \<Rightarrow> True
      | Inr first \<Rightarrow>
          sorted_wrt (\<lambda>a b. ID b < ID a)
            (concat (map Torrents (rev
               (servedPages (clientOf growing) (TrimPrefix (S_ImdbID exampleOptions) ''tt'') 1
                  (nat (pageCount (TorrentsCount first))))))))"
    by code_simp
  have run: "itemIDs (sent (world (TorrentStream (clientOf growing) [TimerFired] 5 exampleOptions))) = [1, 2, 3]"
    by code_simp
  from emitted_ids_strictly_increase [OF pages, of "[TimerFired]" 5] run
  show ?thesis by blast
qed

text \<open>
  C1, as the claim states it, fails for the upstream \<open>shrinking\<close>: the resync sends the
  torrents 1 and 2 of page 2 and then, from page 1, the torrents 1, 2 and 3.
\<close>

theorem resync_can_repeat_torrents:
  "itemIDs (sent (world (TorrentStream (clientOf shrinking) [] 5 exampleOptions))) = [1, 2, 1, 2, 3] \<and>
   \<not> sorted_wrt (<) (itemIDs (sent (world (TorrentStream (clientOf shrinking) [] 5 exampleOptions))))"
  by code_simp

text \<open>
  C2, as the code has it. In the poll loop every torrent sent has an identifier above the
  cursor in force: what the loop adds to the trace, put behind the cursor it started
  with, is strictly increasing. So a stream opened with a \<open>LastTorrentID\<close> other than zero
  sends only identifiers above it. A round whose newest torrent is not above the cursor
  sends nothing and leaves the cursor as it is. (The resync compares no identifier with
  the cursor.)
\<close>

theorem poll_emits_only_above_cursor:
  "(\<exists>new. sent (world (pollLoop c consumer imdbID iv l ctx s)) = sent s @ new \<and>
          sorted_wrt (<) (l # itemIDs new)) \<and>
   (LastTorrentID streamOptions \<noteq> 0 \<longrightarrow>
      (\<forall>x \<in> set (itemIDs (sent (world (TorrentStream c ctx consumer streamOptions)))).
         LastTorrentID streamOptions < x)) \<and>
   (client c (length (requests s)) (buildRequest \<lparr>Page = 1, Limit = 1, ImdbID = imdbID\<rparr>) = Inr page \<and>
    Torrents page = newest # older \<and> ID newest \<le> l \<longrightarrow>
      pollLoop c consumer imdbID iv l (TimerFired # ctx) s =
      pollLoop c consumer imdbID iv l ctx
        (s\<lparr>timers := timers s @ [iv],
           requests := requests s @ [buildRequest \<lparr>Page = 1, Limit = 1, ImdbID = imdbID\<rparr>]\<rparr>))"
proof (intro conjI impI)
  show "\<exists>new. sent (world (pollLoop c consumer imdbID iv l ctx s)) = sent s @ new \<and>
          sorted_wrt (<) (l # itemIDs new)"
    by (rule pollLoop_new_items)
next
  assume nonzero: "LastTorrentID streamOptions \<noteq> 0"
  let ?l = "LastTorrentID streamOptions"
  have poll: "\<forall>x \<in> set (itemIDs (sent (world (pollLoop c consumer i iv' ?l ctx start)))). ?l < x" for i iv'
  proof -
    from pollLoop_new_items [of c consumer i iv' ?l ctx start] obtain new
      where "sent (world (pollLoop c consumer i iv' ?l ctx start)) = sent start @ new"
        and "sorted_wrt (<) (?l # itemIDs new)"
      by blast
    then show ?thesis by (simp add: start_def)
  qed
  show "\<forall>x \<in> set (itemIDs (sent (world (TorrentStream c ctx consumer streamOptions)))). ?l < x"
  proof (cases "TrimPrefix (S_ImdbID streamOptions) ''tt'' = []")
    case True
    then show ?thesis
      by (simp add: TorrentStream_def send_def start_def)
  next
    case False
    with nonzero poll show ?thesis
      by (simp add: TorrentStream_def Let_def)
  qed
next
  assume "client c (length (requests s)) (buildRequest \<lparr>Page = 1, Limit = 1, ImdbID = imdbID\<rparr>) = Inr page \<and>
    Torrents page = newest # older \<and> ID newest \<le> l"
  then show "pollLoop c consumer imdbID iv l (TimerFired # ctx) s =
      pollLoop c consumer imdbID iv l ctx
        (s\<lparr>timers := timers s @ [iv],
           requests := requests s @ [buildRequest \<lparr>Page = 1, Limit = 1, ImdbID = imdbID\<rparr>]\<rparr>)"
    by (simp add: pollLoop.simps(3) GetTorrents_def Let_def)
qed

theorem poll_emits_only_above_cursor_witness:
  "LastTorrentID (exampleOptions\<lparr>LastTorrentID := 50\<rparr>) \<noteq> 0 \<and>
   itemIDs (sent (world (TorrentStream (clientOf newer) [TimerFired, TimerFired] 5
      (exampleOptions\<lparr>LastTorrentID := 50\<rparr>)))) = [51] \<and>
   50 < hd (itemIDs (sent (world (TorrentStream (clientOf newer) [TimerFired, TimerFired] 5
      (exampleOptions\<lparr>LastTorrentID := 50\<rparr>))))) \<and>
   pollLoop (clientOf newer) 5 ''7908628'' 9 50 (TimerFired # []) start =
   pollLoop (clientOf newer) 5 ''7908628'' 9 50 []
     (start\<lparr>timers := timers start @ [9],
            requests := requests start @ [buildRequest \<lparr>Page = 1, Limit = 1, ImdbID = ''7908628''\<rparr>]\<rparr>)"
proof -
  let ?opts = "exampleOptions\<lparr>LastTorrentID := 50\<rparr>"
  let ?run = "TorrentStream (clientOf newer) [TimerFired, TimerFired] 5 ?opts"
  have nonzero: "LastTorrentID ?opts \<noteq> 0"
    by simp
  have run: "itemIDs (sent (world ?run)) = [51]"
    by code_simp
  then have "hd (itemIDs (sent (world ?run))) \<in> set (itemIDs (sent (world ?run)))"
    by simp
  with poll_emits_only_above_cursor
         [where c = "clientOf newer" and consumer = 5 and ctx = "[TimerFired, TimerFired]"
            and streamOptions = ?opts]
       nonzero
  have above: "50 < hd (itemIDs (sent (world ?run)))"
    by simp
  have answer: "client (clientOf newer) (length (requests start))
        (buildRequest \<lparr>Page = 1, Limit = 1, ImdbID = ''7908628''\<rparr>) = Inr (pageWith 50 [torrentWithID 50]) \<and>
      Torrents (pageWith 50 [torrentWithID 50]) = torrentWithID 50 # [] \<and> ID (torrentWithID 50) \<le> 50"
    by (simp add: newer_def replay_def start_def pageWith_def torrentWithID_def)
  with poll_emits_only_above_cursor
         [where c = "clientOf newer" and consumer = 5 and imdbID = "''7908628''" and iv = 9
            and l = 50 and ctx = "[]" and s = start and page = "pageWith 50 [torrentWithID 50]"
            and newest = "torrentWithID 50" and older = "[]"]
  have equal: "pollLoop (clientOf newer) 5 ''7908628'' 9 50 (TimerFired # []) start =
     pollLoop (clientOf newer) 5 ''7908628'' 9 50 []
       (start\<lparr>timers := timers start @ [9],
              requests := requests start @ [buildRequest \<lparr>Page = 1, Limit = 1, ImdbID = ''7908628''\<rparr>]\<rparr>)"
    by blast
  from nonzero run above equal show ?thesis by blast
qed

text \<open>
  C2, as the claim states it, fails in the resync. With the upstream \<open>shrinking\<close> and a
  consumer that has received two events the goroutine stands in the send of torrent 1
  with the cursor at 2; a consumer that receives a third event gets that torrent.
\<close>

theorem resync_emits_at_or_below_cursor:
  "status (TorrentStream (clientOf shrinking) [] 2 exampleOptions) = BlockedSend \<and>
   cursor (TorrentStream (clientOf shrinking) [] 2 exampleOptions) = 2 \<and>
   itemIDs (sent (world (TorrentStream (clientOf shrinking) [] 2 exampleOptions))) = [1, 2] \<and>
   itemIDs (sent (world (TorrentStream (clientOf shrinking) [] 3 exampleOptions))) = [1, 2, 1]"
  by code_simp

text \<open>
  C8, as the code has it. In the poll loop the cursor never decreases: a run never ends
  below the cursor it started with, and a longer run of the same stream never ends below
  a shorter one. This holds for the rounds of the poll loop of every stream, and a stream
  opened with a \<open>LastTorrentID\<close> other than zero never has a cursor below it. (The resync
  assigns the identifier of each torrent it sends, whatever the cursor was.)
\<close>

theorem poll_cursor_never_decreases:
  "l \<le> cursor (pollLoop c consumer imdbID iv l ctx s) \<and>
   cursor (pollLoop c consumer imdbID iv l ctx s) \<le> cursor (pollLoop c consumer imdbID iv l (ctx @ later) s) \<and>
   cursor (TorrentStream c ctx consumer streamOptions)
     \<le> cursor (TorrentStream c (ctx @ later) consumer streamOptions) \<and>
   (LastTorrentID streamOptions \<noteq> 0 \<longrightarrow>
      LastTorrentID streamOptions \<le> cursor (TorrentStream c ctx consumer streamOptions))"
  by (simp add: pollLoop_cursor_ge pollLoop_cursor_prefix TorrentStream_def Let_def
      split: option.splits resync.splits)

theorem poll_cursor_never_decreases_witness:
  "LastTorrentID (exampleOptions\<lparr>LastTorrentID := 50\<rparr>) \<noteq> 0 \<and>
   50 \<le> cursor (TorrentStream (clientOf newer) [TimerFired] 5 (exampleOptions\<lparr>LastTorrentID := 50\<rparr>)) \<and>
   cursor (TorrentStream (clientOf newer) [TimerFired] 5 (exampleOptions\<lparr>LastTorrentID := 50\<rparr>))
     \<le> cursor (TorrentStream (clientOf newer) ([TimerFired] @ [TimerFired]) 5
          (exampleOptions\<lparr>LastTorrentID := 50\<rparr>)) \<and>
   cursor (TorrentStream (clientOf newer) ([TimerFired] @ [TimerFired]) 5
          (exampleOptions\<lparr>LastTorrentID := 50\<rparr>)) = 51"
proof -
  have nonzero: "LastTorrentID (exampleOptions\<lparr>LastTorrentID := 50\<rparr>) \<noteq> 0"
    by simp
  have final: "cursor (TorrentStream (clientOf newer) ([TimerFired] @ [TimerFired]) 5
          (exampleOptions\<lparr>LastTorrentID := 50\<rparr>)) = 51"
    by code_simp
  from poll_cursor_never_decreases
         [where l = 50 and c = "clientOf newer" and consumer = 5 and imdbID = "''7908628''"
            and iv = 9 and ctx = "[TimerFired]" and s = start and later = "[TimerFired]"
            and streamOptions = "exampleOptions\<lparr>LastTorrentID := 50\<rparr>"]
       nonzero final
  show ?thesis by simp
qed

text \<open>
  C8, as the claim states it, fails in the resync. With the upstream \<open>shrinking\<close> the
  cursor is 2 when the consumer has received two events, and 1 when it has received the
  third, which is torrent 1 again; the longer run continues the shorter one.
\<close>

theorem resync_cursor_can_decrease:
  "cursor (TorrentStream (clientOf shrinking) [] 2 exampleOptions) = 2 \<and>
   cursor (TorrentStream (clientOf shrinking) [] 3 exampleOptions) = 1 \<and>
   take 2 (sent (world (TorrentStream (clientOf shrinking) [] 3 exampleOptions))) =
     sent (world (TorrentStream (clientOf shrinking) [] 2 exampleOptions))"
  by code_simp

end
